theory Spec2Isabelle
  imports Main "HOL-Library.AList"
begin

section \<open>The package initialiser of \<open>mosaicolabs.models.query\<close>\<close>

text \<open>
  The source is \<^verbatim>\<open>mosaicolabs/models/query/__init__.py\<close>: two statements,
  \<^verbatim>\<open>from .builders import (QueryTopic as QueryTopic, ...)\<close> and
  \<^verbatim>\<open>from .response import (QueryResponseItemSequence as QueryResponseItemSequence, ...)\<close>.
  The submodules \<^verbatim>\<open>builders\<close> and \<^verbatim>\<open>response\<close> are not part of the
  source at hand, so what loading them yields is a parameter of the model (a \<open>loader\<close>).
\<close>

subsection \<open>Values, namespaces, exceptions\<close>

text \<open>
  A namespace holds references. \<open>Obj a\<close> is the reference to the object with identity \<open>a\<close>
  (what Python's \<^verbatim>\<open>id\<close> and \<^verbatim>\<open>is\<close> observe), \<open>Module q\<close> the module object
  registered under the qualified name \<open>q\<close>. Two references are the same object exactly
  when they are equal.
\<close>

datatype pyval = NoneVal | Str string | StrList "string list" | Obj nat | Module string

text \<open>
  A module's \<^verbatim>\<open>__dict__\<close>: a dict in insertion order. Storing under a key that is
  present replaces the value in place, storing under a new key appends, which is
  \<open>AList.update\<close>; a lookup is \<open>map_of\<close>.
\<close>

type_synonym namespace = "(string \<times> pyval) list"

datatype exn =
    ImportError string string
  | ModuleNotFoundError string
  | AttributeError string string
  | TypeError string
  | Raised nat

text \<open>
  \<open>ImportError n q\<close> is "cannot import name \<open>n\<close> from \<open>q\<close>"; \<open>Raised k\<close> stands for any
  other exception object a submodule's own code raises while it is loaded.
\<close>

type_synonym loader = "string \<Rightarrow> exn + namespace"

text \<open>
  The state the module body runs in: its own globals (the namespace of the package under
  initialisation) and the module cache \<^verbatim>\<open>sys.modules\<close>, restricted to the modules the
  body names.
\<close>

record exec_state =
  globals :: namespace
  sys_modules :: "string \<rightharpoonup> namespace"

subsection \<open>The import statement\<close>

definition package :: string where
  "package = ''mosaicolabs.models.query''"

text \<open>A relative name of level one, resolved against the package.\<close>

definition resolve_name :: "string \<Rightarrow> string" where
  "resolve_name child = package @ ''.'' @ child"

text \<open>
  Finding a module: the cache is consulted first, and only a module that is not cached
  is loaded.
\<close>

definition find_and_load :: "loader \<Rightarrow> (string \<rightharpoonup> namespace) \<Rightarrow> string \<Rightarrow> exn + namespace" where
  "find_and_load ld mods q = (case mods q of Some m \<Rightarrow> Inr m | None \<Rightarrow> ld q)"

text \<open>
  \<^verbatim>\<open>IMPORT_NAME\<close> for \<^verbatim>\<open>from .child import ...\<close>. A cached submodule is returned as
  it is. A submodule that is loaded is entered into the cache and bound, under its last
  name component, in the namespace of its parent package (Python language reference,
  "The import system", Submodules: the binding is placed when the submodule is loaded).
  A load that raises leaves both untouched.
\<close>

definition import_submodule :: "loader \<Rightarrow> string \<Rightarrow> exec_state \<Rightarrow> exec_state \<times> (exn + namespace)" where
  "import_submodule ld child st =
     (let q = resolve_name child in
      case sys_modules st q of
        Some m \<Rightarrow> (st, Inr m)
      | None \<Rightarrow>
          (case ld q of
            Inl e \<Rightarrow> (st, Inl e)
          | Inr m \<Rightarrow>
              (st\<lparr>sys_modules := (sys_modules st)(q \<mapsto> m),
                  globals := AList.update child (Module q) (globals st)\<rparr>, Inr m)))"

text \<open>
  The clauses \<^verbatim>\<open>name as asname\<close>, left to right: \<^verbatim>\<open>IMPORT_FROM name\<close> reads the
  attribute off the module and raises \<open>ImportError\<close> when there is none,
  \<^verbatim>\<open>STORE_NAME asname\<close> binds it. A clause is bound before the next one is resolved.
\<close>

fun import_names :: "string \<Rightarrow> namespace \<Rightarrow> (string \<times> string) list \<Rightarrow> exec_state \<Rightarrow> exec_state \<times> exn option" where
  "import_names q m [] st = (st, None)"
| "import_names q m ((n, a) # rest) st =
     (case map_of m n of
        None \<Rightarrow> (st, Some (ImportError n q))
      | Some v \<Rightarrow> import_names q m rest (st\<lparr>globals := AList.update a v (globals st)\<rparr>))"

definition import_from :: "loader \<Rightarrow> string \<Rightarrow> (string \<times> string) list \<Rightarrow> exec_state \<Rightarrow> exec_state \<times> exn option" where
  "import_from ld child clauses st =
     (case import_submodule ld child st of
        (st', Inl e) \<Rightarrow> (st', Some e)
      | (st', Inr m) \<Rightarrow> import_names (resolve_name child) m clauses st')"

subsection \<open>The module body\<close>

definition builders_imports :: "(string \<times> string) list" where
  "builders_imports =
     [(''QueryTopic'', ''QueryTopic''),
      (''QuerySequence'', ''QuerySequence''),
      (''QueryOntologyCatalog'', ''QueryOntologyCatalog''),
      (''Query'', ''Query'')]"

definition response_imports :: "(string \<times> string) list" where
  "response_imports =
     [(''QueryResponseItemSequence'', ''QueryResponseItemSequence''),
      (''QueryResponseItemTopic'', ''QueryResponseItemTopic''),
      (''TimestampRange'', ''TimestampRange''),
      (''QueryResponseItem'', ''QueryResponseItem''),
      (''QueryResponse'', ''QueryResponse'')]"

text \<open>The two statements of \<^verbatim>\<open>__init__.py\<close>, in order; an exception ends the body.\<close>

definition init_body :: "loader \<Rightarrow> exec_state \<Rightarrow> exec_state \<times> exn option" where
  "init_body ld st =
     (case import_from ld ''builders'' builders_imports st of
        (st1, Some e) \<Rightarrow> (st1, Some e)
      | (st1, None) \<Rightarrow> import_from ld ''response'' response_imports st1)"

text \<open>
  Importing the package when it is not cached: the import system runs the body in the
  namespace \<open>ns0\<close> it created for the new module (its \<^verbatim>\<open>__name__\<close>, \<^verbatim>\<open>__path__\<close> and
  other attributes of that kind). When the body raises, the package is not kept in the
  cache and the exception is handed on; the submodules loaded until then stay cached.
  Otherwise the package is cached with the namespace the body left.
\<close>

definition import_package :: "loader \<Rightarrow> namespace \<Rightarrow> (string \<rightharpoonup> namespace) \<Rightarrow> (string \<rightharpoonup> namespace) \<times> (exn + namespace)" where
  "import_package ld ns0 mods =
     (case init_body ld \<lparr>globals = ns0, sys_modules = mods\<rparr> of
        (st, Some e) \<Rightarrow> (sys_modules st, Inl e)
      | (st, None) \<Rightarrow> ((sys_modules st)(package \<mapsto> globals st), Inr (globals st)))"

subsection \<open>What consumers do with the package\<close>


fun leading_underscore :: "string \<Rightarrow> bool" where
  "leading_underscore [] = False"
| "leading_underscore (c # cs) = (c = CHR ''_'')"

text \<open>The public names of a namespace, in the order of the dict.\<close>

definition public_names :: "namespace \<Rightarrow> string list" where
  "public_names ns = filter (\<lambda>n. \<not> leading_underscore n) (map fst ns)"

text \<open>
  \<^verbatim>\<open>from package import *\<close>: the names are those of \<^verbatim>\<open>__all__\<close> when the module has
  one (a string is iterated character by character, a value that cannot be iterated
  raises), and otherwise the keys of its dict that do not begin with an underscore; each
  is read off the module and bound in the importing namespace.
\<close>

definition star_names :: "namespace \<Rightarrow> exn + string list" where
  "star_names m =
     (case map_of m ''__all__'' of
        None \<Rightarrow> Inr (public_names m)
      | Some (StrList xs) \<Rightarrow> Inr xs
      | Some (Str s) \<Rightarrow> Inr (map (\<lambda>c. [c]) s)
      | Some _ \<Rightarrow> Inl (TypeError ''__all__''))"

fun bind_all :: "string \<Rightarrow> namespace \<Rightarrow> string list \<Rightarrow> namespace \<Rightarrow> exn + namespace" where
  "bind_all q m [] ns = Inr ns"
| "bind_all q m (n # rest) ns =
     (case map_of m n of
        None \<Rightarrow> Inl (AttributeError q n)
      | Some v \<Rightarrow> bind_all q m rest (AList.update n v ns))"

definition import_star :: "string \<Rightarrow> namespace \<Rightarrow> namespace \<Rightarrow> exn + namespace" where
  "import_star q m ns =
     (case star_names m of Inl e \<Rightarrow> Inl e | Inr names \<Rightarrow> bind_all q m names ns)"

subsection \<open>The interface table of the specification\<close>

text \<open>The nine names of the table, each with its origin submodule.\<close>

definition spec_table :: "(string \<times> string) list" where
  "spec_table =
     [(''QueryTopic'', ''builders''),
      (''QuerySequence'', ''builders''),
      (''QueryOntologyCatalog'', ''builders''),
      (''Query'', ''builders''),
      (''QueryResponseItemSequence'', ''response''),
      (''QueryResponseItemTopic'', ''response''),
      (''TimestampRange'', ''response''),
      (''QueryResponseItem'', ''response''),
      (''QueryResponse'', ''response'')]"

definition listed_names :: "string list" where
  "listed_names = map fst spec_table"

text \<open>A namespace provides a name when it binds it to something other than \<^verbatim>\<open>None\<close>.\<close>

definition provides :: "namespace \<Rightarrow> string \<Rightarrow> bool" where
  "provides m n = (case map_of m n of None \<Rightarrow> False | Some v \<Rightarrow> v \<noteq> NoneVal)"

subsection \<open>A concrete interpreter\<close>

text \<open>
  Submodules that define the names as nine distinct objects, a loader that knows the two
  of them, and the namespace of a module that has just been created.
\<close>

definition demo_builders :: namespace where
  "demo_builders =
     [(''QueryTopic'', Obj 1), (''QuerySequence'', Obj 2),
      (''QueryOntologyCatalog'', Obj 3), (''Query'', Obj 4)]"

definition demo_response :: namespace where
  "demo_response =
     [(''QueryResponseItemSequence'', Obj 5), (''QueryResponseItemTopic'', Obj 6),
      (''TimestampRange'', Obj 7), (''QueryResponseItem'', Obj 8),
      (''QueryResponse'', Obj 9)]"

definition demo_submodule :: "string \<Rightarrow> namespace" where
  "demo_submodule child = (if child = ''builders'' then demo_builders else demo_response)"

definition demo_loader :: loader where
  "demo_loader q =
     (if q = ''mosaicolabs.models.query.builders'' then Inr demo_builders
      else if q = ''mosaicolabs.models.query.response'' then Inr demo_response
      else Inl (ModuleNotFoundError q))"

text \<open>The same files, but loading \<^verbatim>\<open>response\<close> raises.\<close>

definition failing_response_loader :: loader where
  "failing_response_loader q =
     (if q = ''mosaicolabs.models.query.builders'' then Inr demo_builders
      else if q = ''mosaicolabs.models.query.response'' then Inl (Raised 0)
      else Inl (ModuleNotFoundError q))"

definition demo_ns0 :: namespace where
  "demo_ns0 =
     [(''__name__'', Str ''mosaicolabs.models.query''), (''__doc__'', NoneVal),
      (''__package__'', Str ''mosaicolabs.models.query''), (''__loader__'', Obj 100),
      (''__spec__'', Obj 101), (''__path__'', Obj 102), (''__file__'', Obj 103),
      (''__cached__'', Obj 104), (''__builtins__'', Obj 105)]"

text \<open>
  The namespace the body leaves when that interpreter imports the package for the first
  time, and the one it leaves when the import is repeated after a first attempt in which
  loading \<^verbatim>\<open>response\<close> raised.
\<close>

definition demo_root :: namespace where
  "demo_root = demo_ns0 @
     [(''builders'', Module ''mosaicolabs.models.query.builders''),
      (''QueryTopic'', Obj 1), (''QuerySequence'', Obj 2),
      (''QueryOntologyCatalog'', Obj 3), (''Query'', Obj 4),
      (''response'', Module ''mosaicolabs.models.query.response''),
      (''QueryResponseItemSequence'', Obj 5), (''QueryResponseItemTopic'', Obj 6),
      (''TimestampRange'', Obj 7), (''QueryResponseItem'', Obj 8),
      (''QueryResponse'', Obj 9)]"

definition demo_root_retry :: namespace where
  "demo_root_retry = demo_ns0 @
     [(''QueryTopic'', Obj 1), (''QuerySequence'', Obj 2),
      (''QueryOntologyCatalog'', Obj 3), (''Query'', Obj 4),
      (''response'', Module ''mosaicolabs.models.query.response''),
      (''QueryResponseItemSequence'', Obj 5), (''QueryResponseItemTopic'', Obj 6),
      (''TimestampRange'', Obj 7), (''QueryResponseItem'', Obj 8),
      (''QueryResponse'', Obj 9)]"

text \<open>
  A \<^verbatim>\<open>builders\<close> module in which \<^verbatim>\<open>QuerySequence\<close> has been renamed, and a
  loader for which loading \<^verbatim>\<open>builders\<close> raises.
\<close>

definition renamed_builders :: namespace where
  "renamed_builders =
     [(''QueryTopic'', Obj 1), (''QuerySeq'', Obj 2),
      (''QueryOntologyCatalog'', Obj 3), (''Query'', Obj 4)]"


definition renamed_loader :: loader where
  "renamed_loader q =
     (if q = ''mosaicolabs.models.query.builders'' then Inr renamed_builders
      else if q = ''mosaicolabs.models.query.response'' then Inr demo_response
      else Inl (ModuleNotFoundError q))"


text \<open>What \<^verbatim>\<open>from mosaicolabs.models.query import *\<close> binds after that repeated import.\<close>

definition demo_star_retry :: namespace where
  "demo_star_retry =
     [(''QueryTopic'', Obj 1), (''QuerySequence'', Obj 2),
      (''QueryOntologyCatalog'', Obj 3), (''Query'', Obj 4),
      (''response'', Module ''mosaicolabs.models.query.response''),
      (''QueryResponseItemSequence'', Obj 5), (''QueryResponseItemTopic'', Obj 6),
      (''TimestampRange'', Obj 7), (''QueryResponseItem'', Obj 8),
      (''QueryResponse'', Obj 9)]"

subsection \<open>Loading with its effects, and the fallbacks of a from-import\<close>

text \<open>
  The model above takes a submodule as a finished dict. What follows keeps what CPython
  does besides, so that statements about every name at the package root, about the module
  cache and about failure can be made of the interpreter itself.

  Running the code of a module has effects the package can observe: other modules get
  loaded meanwhile (the module imports its siblings and modules of other packages),
  objects are mutated, and the code ends with an exception or with the module's dict.
  \<open>meanwhile\<close> lists, by their full names and in the order of their completion, the
  modules whose loading completes while the code runs. A \<open>world\<close> gives this for every
  module that is not cached yet.

  The submodules are not part of the source at hand. What their code may do to the
  package is what the import system does on its behalf; code that assigns or deletes
  attributes of the package by hand is not described.
\<close>

record load_result =
  meanwhile :: "string list"
  heap_writes :: "(nat \<times> nat) list"
  outcome :: "exn + namespace"

type_synonym world = "string \<Rightarrow> load_result"

text \<open>
  The interpreter: the namespace of the package under initialisation, the module cache,
  and the state of the objects, by identity.
\<close>

record interp =
  pkg_globals :: namespace
  mod_cache :: "string \<rightharpoonup> namespace"
  obj_heap :: "nat \<Rightarrow> nat"

definition run_code :: "load_result \<Rightarrow> interp \<Rightarrow> interp" where
  "run_code r st =
     st\<lparr>obj_heap := fold (\<lambda>(a, x) h. h(a := x)) (heap_writes r) (obj_heap st)\<rparr>"

text \<open>
  The name at the package root of a direct submodule of the package: what follows
  \<^verbatim>\<open>mosaicolabs.models.query.\<close> in its full name, when that has no further dot.
\<close>

definition direct_child :: "string \<Rightarrow> string option" where
  "direct_child q =
     (let c = drop (length package + 1) q in
      if take (length package + 1) q = package @ ''.'' \<and> CHR ''.'' \<notin> set c then Some c
      else None)"

text \<open>
  A module that another module imports while it runs. The package under initialisation
  is in the module cache all the while, and importing it gives what is there. For any
  other module nothing happens when it is cached; a load that raises leaves no module; a
  load that completes is entered in the cache and, for a direct submodule of the
  package, bound at the package root.
\<close>

definition enter_module :: "world \<Rightarrow> string \<Rightarrow> interp \<Rightarrow> interp" where
  "enter_module w q st =
     (if q = package then st
      else
        (case mod_cache st q of
           Some m \<Rightarrow> st
         | None \<Rightarrow>
             (let st1 = run_code (w q) st in
              case outcome (w q) of
                Inl e \<Rightarrow> st1
              | Inr m \<Rightarrow>
                  st1\<lparr>mod_cache := (mod_cache st1)(q \<mapsto> m),
                      pkg_globals :=
                        (case direct_child q of
                           None \<Rightarrow> pkg_globals st1
                         | Some c \<Rightarrow> AList.update c (Module q) (pkg_globals st1))\<rparr>)))"

text \<open>
  \<^verbatim>\<open>setattr(parent, child, module)\<close>: the parent is the package under initialisation,
  or a module of the cache.
\<close>

definition set_attr :: "string \<Rightarrow> string \<Rightarrow> pyval \<Rightarrow> interp \<Rightarrow> interp" where
  "set_attr owner k v st =
     (if owner = package then st\<lparr>pkg_globals := AList.update k v (pkg_globals st)\<rparr>
      else
        (case mod_cache st owner of
           None \<Rightarrow> st
         | Some m \<Rightarrow> st\<lparr>mod_cache := (mod_cache st)(owner \<mapsto> AList.update k v m)\<rparr>))"

text \<open>
  Finding the module \<open>owner.child\<close>: a cached module is returned as it is, with no
  binding made. Otherwise its code runs, with its effects; when the code raises the
  effects stay and no module is cached; when it completes the module is cached and bound
  in its parent.
\<close>

definition load_module :: "world \<Rightarrow> string \<Rightarrow> string \<Rightarrow> interp \<Rightarrow> interp \<times> (exn + namespace)" where
  "load_module w owner child st =
     (let q = owner @ ''.'' @ child in
      case mod_cache st q of
        Some m \<Rightarrow> (st, Inr m)
      | None \<Rightarrow>
          (let st1 = fold (enter_module w) (meanwhile (w q)) (run_code (w q) st) in
           case outcome (w q) of
             Inl e \<Rightarrow> (st1, Inl e)
           | Inr m \<Rightarrow>
               (set_attr owner child (Module q) (st1\<lparr>mod_cache := (mod_cache st1)(q \<mapsto> m)\<rparr>),
                Inr m)))"

text \<open>
  The from-list of \<^verbatim>\<open>IMPORT_NAME\<close>, run when the origin is a package (it has a
  \<^verbatim>\<open>__path__\<close>), before any clause is bound: for each name the origin has no attribute
  for, the module \<open>origin.name\<close> is imported. That there is no such module is ignored;
  any other exception ends the statement. A module loaded this way has been bound in the
  origin, which is read again from the cache.
\<close>

fun handle_fromlist :: "world \<Rightarrow> string \<Rightarrow> namespace \<Rightarrow> string list \<Rightarrow> interp \<Rightarrow> interp \<times> (exn + namespace)" where
  "handle_fromlist w q m [] st = (st, Inr m)"
| "handle_fromlist w q m (n # rest) st =
     (case map_of m n of
        Some v \<Rightarrow> handle_fromlist w q m rest st
      | None \<Rightarrow>
          (case load_module w q n st of
             (st', Inr sub) \<Rightarrow>
               handle_fromlist w q (case mod_cache st' q of Some m' \<Rightarrow> m' | None \<Rightarrow> m) rest st'
           | (st', Inl e) \<Rightarrow>
               (if e = ModuleNotFoundError (q @ ''.'' @ n) then handle_fromlist w q m rest st'
                else (st', Inl e))))"

text \<open>
  \<^verbatim>\<open>IMPORT_FROM name\<close>: the attribute of the origin, and when there is none the module
  \<open>origin.name\<close> of the cache, if there is one.
\<close>

definition import_attr :: "(string \<rightharpoonup> namespace) \<Rightarrow> string \<Rightarrow> namespace \<Rightarrow> string \<Rightarrow> pyval option" where
  "import_attr mods q m n =
     (case map_of m n of
        Some v \<Rightarrow> Some v
      | None \<Rightarrow>
          (case mods (q @ ''.'' @ n) of
             Some sub \<Rightarrow> Some (Module (q @ ''.'' @ n))
           | None \<Rightarrow> None))"

fun bind_clauses :: "string \<Rightarrow> namespace \<Rightarrow> (string \<times> string) list \<Rightarrow> interp \<Rightarrow> interp \<times> exn option" where
  "bind_clauses q m [] st = (st, None)"
| "bind_clauses q m ((n, a) # rest) st =
     (case import_attr (mod_cache st) q m n of
        None \<Rightarrow> (st, Some (ImportError n q))
      | Some v \<Rightarrow> bind_clauses q m rest (st\<lparr>pkg_globals := AList.update a v (pkg_globals st)\<rparr>))"

definition import_from_stmt :: "world \<Rightarrow> string \<Rightarrow> (string \<times> string) list \<Rightarrow> interp \<Rightarrow> interp \<times> exn option" where
  "import_from_stmt w child clauses st =
     (case load_module w package child st of
        (st1, Inl e) \<Rightarrow> (st1, Some e)
      | (st1, Inr m) \<Rightarrow>
          (case (if map_of m ''__path__'' = None then (st1, Inr m)
                 else handle_fromlist w (resolve_name child) m (map fst clauses) st1) of
             (st2, Inl e) \<Rightarrow> (st2, Some e)
           | (st2, Inr m2) \<Rightarrow> bind_clauses (resolve_name child) m2 clauses st2))"

text \<open>The two statements of \<^verbatim>\<open>__init__.py\<close> again, in order.\<close>

definition run_init :: "world \<Rightarrow> interp \<Rightarrow> interp \<times> exn option" where
  "run_init w st =
     (case import_from_stmt w ''builders'' builders_imports st of
        (st1, Some e) \<Rightarrow> (st1, Some e)
      | (st1, None) \<Rightarrow> import_from_stmt w ''response'' response_imports st1)"

text \<open>
  Importing the package root once its parent packages are imported: the body runs in the
  namespace \<open>ns0\<close> of the new module; an exception is handed on and the package is not
  kept in the cache; otherwise the package is cached with the namespace the body left.
\<close>

definition import_root :: "world \<Rightarrow> namespace \<Rightarrow> (string \<rightharpoonup> namespace) \<Rightarrow> (nat \<Rightarrow> nat) \<Rightarrow> interp \<times> (exn + namespace)" where
  "import_root w ns0 mods h =
     (case run_init w \<lparr>pkg_globals = ns0, mod_cache = mods, obj_heap = h\<rparr> of
        (st, Some e) \<Rightarrow> (st, Inl e)
      | (st, None) \<Rightarrow>
          (st\<lparr>mod_cache := (mod_cache st)(package \<mapsto> pkg_globals st)\<rparr>, Inr (pkg_globals st)))"

text \<open>
  The direct submodules of the package that entered the module cache between two of its
  states, by their names at the package root.
\<close>

definition newly_loaded :: "(string \<rightharpoonup> namespace) \<Rightarrow> (string \<rightharpoonup> namespace) \<Rightarrow> string set" where
  "newly_loaded before after =
     {c. CHR ''.'' \<notin> set c \<and> before (resolve_name c) = None \<and> after (resolve_name c) \<noteq> None}"

text \<open>What is cached is returned as it is, what is not is what its code ends with.\<close>

definition find_module :: "world \<Rightarrow> (string \<rightharpoonup> namespace) \<Rightarrow> string \<Rightarrow> exn + namespace" where
  "find_module w mods q = (case mods q of Some m \<Rightarrow> Inr m | None \<Rightarrow> outcome (w q))"

text \<open>A world in which running a module's code has no effect besides the module.\<close>

definition quiet_world :: "loader \<Rightarrow> world" where
  "quiet_world ld q = \<lparr>meanwhile = [], heap_writes = [], outcome = ld q\<rparr>"

text \<open>
  The demonstration files again, where \<^verbatim>\<open>builders\<close> now imports a module
  \<^verbatim>\<open>pyarrow\<close> of another package and a sibling \<^verbatim>\<open>expressions\<close>, and sets a field
  of the object \<open>1\<close>.
\<close>

definition sibling_world :: world where
  "sibling_world q =
     (if q = ''mosaicolabs.models.query.builders''
      then \<lparr>meanwhile = [''pyarrow'', ''mosaicolabs.models.query.expressions''],
            heap_writes = [(1, 7)], outcome = Inr demo_builders\<rparr>
      else if q = ''pyarrow''
      then \<lparr>meanwhile = [], heap_writes = [], outcome = Inr [(''Table'', Obj 30)]\<rparr>
      else if q = ''mosaicolabs.models.query.expressions''
      then \<lparr>meanwhile = [], heap_writes = [], outcome = Inr [(''Expr'', Obj 20)]\<rparr>
      else quiet_world demo_loader q)"

definition sibling_root :: namespace where
  "sibling_root = demo_ns0 @
     [(''expressions'', Module ''mosaicolabs.models.query.expressions''),
      (''builders'', Module ''mosaicolabs.models.query.builders''),
      (''QueryTopic'', Obj 1), (''QuerySequence'', Obj 2),
      (''QueryOntologyCatalog'', Obj 3), (''Query'', Obj 4),
      (''response'', Module ''mosaicolabs.models.query.response''),
      (''QueryResponseItemSequence'', Obj 5), (''QueryResponseItemTopic'', Obj 6),
      (''TimestampRange'', Obj 7), (''QueryResponseItem'', Obj 8),
      (''QueryResponse'', Obj 9)]"

text \<open>
  \<^verbatim>\<open>builders\<close> turned into a package whose \<^verbatim>\<open>__init__\<close> no longer provides
  \<^verbatim>\<open>QuerySequence\<close>, the class now living in a module \<^verbatim>\<open>builders/QuerySequence.py\<close>.
\<close>

definition package_builders :: namespace where
  "package_builders =
     [(''__path__'', Obj 50), (''QueryTopic'', Obj 1),
      (''QueryOntologyCatalog'', Obj 3), (''Query'', Obj 4)]"

definition package_world :: world where
  "package_world q =
     (if q = ''mosaicolabs.models.query.builders''
      then \<lparr>meanwhile = [], heap_writes = [], outcome = Inr package_builders\<rparr>
      else if q = ''mosaicolabs.models.query.builders.QuerySequence''
      then \<lparr>meanwhile = [], heap_writes = [], outcome = Inr [(''QuerySequence'', Obj 2)]\<rparr>
      else quiet_world demo_loader q)"

definition package_root :: namespace where
  "package_root = demo_ns0 @
     [(''builders'', Module ''mosaicolabs.models.query.builders''),
      (''QueryTopic'', Obj 1),
      (''QuerySequence'', Module ''mosaicolabs.models.query.builders.QuerySequence''),
      (''QueryOntologyCatalog'', Obj 3), (''Query'', Obj 4),
      (''response'', Module ''mosaicolabs.models.query.response''),
      (''QueryResponseItemSequence'', Obj 5), (''QueryResponseItemTopic'', Obj 6),
      (''TimestampRange'', Obj 7), (''QueryResponseItem'', Obj 8),
      (''QueryResponse'', Obj 9)]"

text \<open>
  How a stretch of loading relates the interpreter before and after it; \<open>T\<close> holds the
  origins whose dicts the stretch may extend. Cached modules stay cached; the package
  root changes exactly at the direct submodules that were loaded, each bound to its
  module; a cached module outside \<open>T\<close> is untouched; a module outside \<open>T\<close> that
  entered the cache is what its code ended with; an object changes only if some module's
  code writes it; the entry of the package itself is untouched.
\<close>

definition advances :: "world \<Rightarrow> string set \<Rightarrow> interp \<Rightarrow> interp \<Rightarrow> bool" where
  "advances w T st st' \<longleftrightarrow>
     (\<forall>q. mod_cache st q \<noteq> None \<longrightarrow> mod_cache st' q \<noteq> None) \<and>
     (\<forall>k. map_of (pkg_globals st') k =
        (if k \<in> newly_loaded (mod_cache st) (mod_cache st') then Some (Module (resolve_name k))
         else map_of (pkg_globals st) k)) \<and>
     (\<forall>q m. q \<notin> T \<longrightarrow> mod_cache st q = Some m \<longrightarrow> mod_cache st' q = Some m) \<and>
     (\<forall>q m. q \<notin> T \<longrightarrow> mod_cache st q = None \<longrightarrow> mod_cache st' q = Some m \<longrightarrow>
        outcome (w q) = Inr m) \<and>
     (\<forall>a. (\<forall>q. a \<notin> fst ` set (heap_writes (w q))) \<longrightarrow> obj_heap st' a = obj_heap st a) \<and>
     mod_cache st' package = mod_cache st package"

section \<open>How the body runs\<close>

lemma qualified_names_differ:
  "resolve_name ''builders'' \<noteq> resolve_name ''response''"
  "resolve_name ''response'' \<noteq> resolve_name ''builders''"
  "resolve_name ''builders'' \<noteq> package"
  "resolve_name ''response'' \<noteq> package"
  by (simp_all add: resolve_name_def package_def)

lemma import_names_None_iff:
  "import_names q m cl st = (st', None) \<longleftrightarrow>
     (\<forall>(n, a) \<in> set cl. map_of m n \<noteq> None) \<and>
     st' = st\<lparr>globals := fold (\<lambda>(n, a). AList.update a (the (map_of m n))) cl (globals st)\<rparr>"
proof (induction cl arbitrary: st)
  case Nil
  show ?case by auto
next
  case (Cons c cl)
  obtain n a where c: "c = (n, a)" by (cases c)
  show ?case
  proof (cases "map_of m n")
    case None
    then show ?thesis by (simp add: c)
  next
    case (Some v)
    then show ?thesis by (simp add: c Cons.IH)
  qed
qed

lemma import_submodule_found:
  assumes "find_and_load ld (sys_modules st) (resolve_name c) = Inr m"
  shows "import_submodule ld c st =
           (st\<lparr>sys_modules := (sys_modules st)(resolve_name c \<mapsto> m),
               globals := (if sys_modules st (resolve_name c) = None
                           then AList.update c (Module (resolve_name c)) (globals st)
                           else globals st)\<rparr>, Inr m)"
  using assms
  by (auto simp: import_submodule_def find_and_load_def Let_def map_upd_triv split: option.splits sum.splits)

lemma import_submodule_failed:
  assumes "find_and_load ld (sys_modules st) (resolve_name c) = Inl e"
  shows "import_submodule ld c st = (st, Inl e)"
  using assms
  by (auto simp: import_submodule_def find_and_load_def Let_def split: option.splits sum.splits)

lemma import_from_None_iff:
  "import_from ld c cl st = (st', None) \<longleftrightarrow>
     (\<exists>m. find_and_load ld (sys_modules st) (resolve_name c) = Inr m \<and>
          (\<forall>(n, a) \<in> set cl. map_of m n \<noteq> None) \<and>
          st' = \<lparr>globals = fold (\<lambda>(n, a). AList.update a (the (map_of m n))) cl
                     (if sys_modules st (resolve_name c) = None
                      then AList.update c (Module (resolve_name c)) (globals st)
                      else globals st),
                 sys_modules = (sys_modules st)(resolve_name c \<mapsto> m)\<rparr>)"
proof (cases "find_and_load ld (sys_modules st) (resolve_name c)")
  case (Inl e)
  then show ?thesis
    by (simp add: import_from_def import_submodule_failed)
next
  case (Inr m)
  then show ?thesis
    by (auto simp: import_from_def import_submodule_found import_names_None_iff)
qed

lemma find_and_load_other:
  "q' \<noteq> q \<Longrightarrow> find_and_load ld (mods(q \<mapsto> m)) q' = find_and_load ld mods q'"
  by (simp add: find_and_load_def)

lemma init_body_None_iff:
  "init_body ld st = (st', None) \<longleftrightarrow>
     (\<exists>mb mr.
        find_and_load ld (sys_modules st) (resolve_name ''builders'') = Inr mb \<and>
        find_and_load ld (sys_modules st) (resolve_name ''response'') = Inr mr \<and>
        (\<forall>(n, a) \<in> set builders_imports. map_of mb n \<noteq> None) \<and>
        (\<forall>(n, a) \<in> set response_imports. map_of mr n \<noteq> None) \<and>
        st' = \<lparr>globals =
                 fold (\<lambda>(n, a). AList.update a (the (map_of mr n))) response_imports
                   ((if sys_modules st (resolve_name ''response'') = None
                     then AList.update ''response'' (Module (resolve_name ''response''))
                     else id)
                    (fold (\<lambda>(n, a). AList.update a (the (map_of mb n))) builders_imports
                      ((if sys_modules st (resolve_name ''builders'') = None
                        then AList.update ''builders'' (Module (resolve_name ''builders''))
                        else id) (globals st)))),
               sys_modules =
                 (sys_modules st)(resolve_name ''builders'' \<mapsto> mb, resolve_name ''response'' \<mapsto> mr)\<rparr>)"
  (is "?L \<longleftrightarrow> ?R")
proof
  assume ?L
  then obtain st1 where
    s1: "import_from ld ''builders'' builders_imports st = (st1, None)" and
    s2: "import_from ld ''response'' response_imports st1 = (st', None)"
    by (auto simp: init_body_def split: prod.splits option.splits)
  from s1 obtain mb where
    mb: "find_and_load ld (sys_modules st) (resolve_name ''builders'') = Inr mb"
        "\<forall>(n, a) \<in> set builders_imports. map_of mb n \<noteq> None" and
    st1: "st1 = \<lparr>globals = fold (\<lambda>(n, a). AList.update a (the (map_of mb n))) builders_imports
                     (if sys_modules st (resolve_name ''builders'') = None
                      then AList.update ''builders'' (Module (resolve_name ''builders'')) (globals st)
                      else globals st),
                 sys_modules = (sys_modules st)(resolve_name ''builders'' \<mapsto> mb)\<rparr>"
    unfolding import_from_None_iff by blast
  from s2 obtain mr where
    mr: "find_and_load ld (sys_modules st1) (resolve_name ''response'') = Inr mr"
        "\<forall>(n, a) \<in> set response_imports. map_of mr n \<noteq> None" and
    st': "st' = \<lparr>globals = fold (\<lambda>(n, a). AList.update a (the (map_of mr n))) response_imports
                     (if sys_modules st1 (resolve_name ''response'') = None
                      then AList.update ''response'' (Module (resolve_name ''response'')) (globals st1)
                      else globals st1),
                 sys_modules = (sys_modules st1)(resolve_name ''response'' \<mapsto> mr)\<rparr>"
    unfolding import_from_None_iff by blast
  have c: "sys_modules st1 (resolve_name ''response'') = sys_modules st (resolve_name ''response'')"
    by (simp add: st1 qualified_names_differ)
  have f: "find_and_load ld (sys_modules st) (resolve_name ''response'') = Inr mr"
    using mr(1) by (simp add: st1 find_and_load_other qualified_names_differ)
  have "st' = \<lparr>globals =
                 fold (\<lambda>(n, a). AList.update a (the (map_of mr n))) response_imports
                   ((if sys_modules st (resolve_name ''response'') = None
                     then AList.update ''response'' (Module (resolve_name ''response''))
                     else id)
                    (fold (\<lambda>(n, a). AList.update a (the (map_of mb n))) builders_imports
                      ((if sys_modules st (resolve_name ''builders'') = None
                        then AList.update ''builders'' (Module (resolve_name ''builders''))
                        else id) (globals st)))),
               sys_modules =
                 (sys_modules st)(resolve_name ''builders'' \<mapsto> mb, resolve_name ''response'' \<mapsto> mr)\<rparr>"
    unfolding st' c by (simp add: st1)
  with mb mr(2) f show ?R by blast
next
  assume ?R
  then obtain mb mr where
    mb: "find_and_load ld (sys_modules st) (resolve_name ''builders'') = Inr mb"
        "\<forall>(n, a) \<in> set builders_imports. map_of mb n \<noteq> None" and
    mr: "find_and_load ld (sys_modules st) (resolve_name ''response'') = Inr mr"
        "\<forall>(n, a) \<in> set response_imports. map_of mr n \<noteq> None" and
    st': "st' = \<lparr>globals =
                 fold (\<lambda>(n, a). AList.update a (the (map_of mr n))) response_imports
                   ((if sys_modules st (resolve_name ''response'') = None
                     then AList.update ''response'' (Module (resolve_name ''response''))
                     else id)
                    (fold (\<lambda>(n, a). AList.update a (the (map_of mb n))) builders_imports
                      ((if sys_modules st (resolve_name ''builders'') = None
                        then AList.update ''builders'' (Module (resolve_name ''builders''))
                        else id) (globals st)))),
               sys_modules =
                 (sys_modules st)(resolve_name ''builders'' \<mapsto> mb, resolve_name ''response'' \<mapsto> mr)\<rparr>"
    by blast
  define st1 where "st1 = \<lparr>globals = fold (\<lambda>(n, a). AList.update a (the (map_of mb n))) builders_imports
                     (if sys_modules st (resolve_name ''builders'') = None
                      then AList.update ''builders'' (Module (resolve_name ''builders'')) (globals st)
                      else globals st),
                 sys_modules = (sys_modules st)(resolve_name ''builders'' \<mapsto> mb)\<rparr>"
  have s1: "import_from ld ''builders'' builders_imports st = (st1, None)"
    unfolding import_from_None_iff st1_def using mb by blast
  have c: "sys_modules st1 (resolve_name ''response'') = sys_modules st (resolve_name ''response'')"
    by (simp add: st1_def qualified_names_differ)
  have f: "find_and_load ld (sys_modules st1) (resolve_name ''response'') = Inr mr"
    using mr(1) by (simp add: st1_def find_and_load_other qualified_names_differ)
  have e: "st' = \<lparr>globals = fold (\<lambda>(n, a). AList.update a (the (map_of mr n))) response_imports
                     (if sys_modules st1 (resolve_name ''response'') = None
                      then AList.update ''response'' (Module (resolve_name ''response'')) (globals st1)
                      else globals st1),
                 sys_modules = (sys_modules st1)(resolve_name ''response'' \<mapsto> mr)\<rparr>"
    unfolding st' c by (simp add: st1_def)
  have s2: "import_from ld ''response'' response_imports st1 = (st', None)"
    unfolding import_from_None_iff using f mr(2) e by blast
  show ?L by (simp add: init_body_def s1 s2)
qed

lemma import_package_Inr_iff:
  "import_package ld ns0 mods = (mods', Inr ns) \<longleftrightarrow>
     (\<exists>mb mr.
        find_and_load ld mods (resolve_name ''builders'') = Inr mb \<and>
        find_and_load ld mods (resolve_name ''response'') = Inr mr \<and>
        (\<forall>(n, a) \<in> set builders_imports. map_of mb n \<noteq> None) \<and>
        (\<forall>(n, a) \<in> set response_imports. map_of mr n \<noteq> None) \<and>
        ns = fold (\<lambda>(n, a). AList.update a (the (map_of mr n))) response_imports
               ((if mods (resolve_name ''response'') = None
                 then AList.update ''response'' (Module (resolve_name ''response''))
                 else id)
                (fold (\<lambda>(n, a). AList.update a (the (map_of mb n))) builders_imports
                  ((if mods (resolve_name ''builders'') = None
                    then AList.update ''builders'' (Module (resolve_name ''builders''))
                    else id) ns0))) \<and>
        mods' = mods(resolve_name ''builders'' \<mapsto> mb, resolve_name ''response'' \<mapsto> mr,
                     package \<mapsto> ns))"
  (is "?L \<longleftrightarrow> ?R")
proof
  assume ?L
  then obtain st where
    b: "init_body ld \<lparr>globals = ns0, sys_modules = mods\<rparr> = (st, None)" and
    r: "ns = globals st" "mods' = (sys_modules st)(package \<mapsto> globals st)"
    by (auto simp: import_package_def split: prod.splits option.splits)
  from b r show ?R
    unfolding init_body_None_iff by auto
next
  assume ?R
  then obtain mb mr where
    h: "find_and_load ld mods (resolve_name ''builders'') = Inr mb"
       "find_and_load ld mods (resolve_name ''response'') = Inr mr"
       "\<forall>(n, a) \<in> set builders_imports. map_of mb n \<noteq> None"
       "\<forall>(n, a) \<in> set response_imports. map_of mr n \<noteq> None" and
    ns: "ns = fold (\<lambda>(n, a). AList.update a (the (map_of mr n))) response_imports
               ((if mods (resolve_name ''response'') = None
                 then AList.update ''response'' (Module (resolve_name ''response''))
                 else id)
                (fold (\<lambda>(n, a). AList.update a (the (map_of mb n))) builders_imports
                  ((if mods (resolve_name ''builders'') = None
                    then AList.update ''builders'' (Module (resolve_name ''builders''))
                    else id) ns0)))" and
    mods': "mods' = mods(resolve_name ''builders'' \<mapsto> mb, resolve_name ''response'' \<mapsto> mr,
                     package \<mapsto> ns)"
    by blast
  have "init_body ld \<lparr>globals = ns0, sys_modules = mods\<rparr> =
          (\<lparr>globals = ns,
            sys_modules = mods(resolve_name ''builders'' \<mapsto> mb, resolve_name ''response'' \<mapsto> mr)\<rparr>,
           None)"
    unfolding init_body_None_iff using h ns by auto
  then show ?L
    by (simp add: import_package_def mods')
qed

section \<open>The claims\<close>

text \<open>
  C1. When each submodule can be found (cached or loadable) and provides the names the
  table assigns to it, importing the package root succeeds, and each of the nine listed
  names resolves at the package root to a definition that is not \<^verbatim>\<open>None\<close>.
\<close>

theorem import_resolves_listed_names:
  assumes "find_and_load ld mods (resolve_name ''builders'') = Inr (sub ''builders'')"
      and "find_and_load ld mods (resolve_name ''response'') = Inr (sub ''response'')"
      and "\<forall>(n, c) \<in> set spec_table. provides (sub c) n"
  shows "\<exists>mods' ns. import_package ld ns0 mods = (mods', Inr ns) \<and>
           (\<forall>n \<in> set listed_names. provides ns n)"
proof -
  let ?mb = "sub ''builders''" and ?mr = "sub ''response''"
  let ?ns = "fold (\<lambda>(n, a). AList.update a (the (map_of ?mr n))) response_imports
               ((if mods (resolve_name ''response'') = None
                 then AList.update ''response'' (Module (resolve_name ''response''))
                 else id)
                (fold (\<lambda>(n, a). AList.update a (the (map_of ?mb n))) builders_imports
                  ((if mods (resolve_name ''builders'') = None
                    then AList.update ''builders'' (Module (resolve_name ''builders''))
                    else id) ns0)))"
  have pb: "\<forall>(n, a) \<in> set builders_imports. map_of ?mb n \<noteq> None"
    using assms(3) by (auto simp: spec_table_def builders_imports_def provides_def split: option.splits)
  have pr: "\<forall>(n, a) \<in> set response_imports. map_of ?mr n \<noteq> None"
    using assms(3) by (auto simp: spec_table_def response_imports_def provides_def split: option.splits)
  have ok: "import_package ld ns0 mods =
          (mods(resolve_name ''builders'' \<mapsto> ?mb, resolve_name ''response'' \<mapsto> ?mr, package \<mapsto> ?ns),
           Inr ?ns)"
    unfolding import_package_Inr_iff using assms(1,2) pb pr by blast
  have "\<forall>n \<in> set listed_names. provides ?ns n"
    using assms(3)
    by (auto simp: listed_names_def spec_table_def builders_imports_def response_imports_def
        provides_def AList.update_conv' split: option.splits)
  with ok show ?thesis by blast
qed

theorem import_resolves_listed_names_witness:
  "find_and_load demo_loader Map.empty (resolve_name ''builders'') = Inr (demo_submodule ''builders'') \<and>
   find_and_load demo_loader Map.empty (resolve_name ''response'') = Inr (demo_submodule ''response'') \<and>
   list_all (\<lambda>(n, c). provides (demo_submodule c) n) spec_table \<and>
   (\<exists>mods' ns. import_package demo_loader demo_ns0 Map.empty = (mods', Inr ns) \<and>
      list_all (provides ns) listed_names)"
proof -
  have h1: "find_and_load demo_loader Map.empty (resolve_name ''builders'') = Inr (demo_submodule ''builders'')"
    by (simp add: find_and_load_def demo_loader_def resolve_name_def package_def demo_submodule_def)
  have h2: "find_and_load demo_loader Map.empty (resolve_name ''response'') = Inr (demo_submodule ''response'')"
    by (simp add: find_and_load_def demo_loader_def resolve_name_def package_def demo_submodule_def)
  have h3: "list_all (\<lambda>(n, c). provides (demo_submodule c) n) spec_table"
    by (simp add: spec_table_def provides_def demo_submodule_def demo_builders_def demo_response_def)
  then have h3': "\<forall>(n, c) \<in> set spec_table. provides (demo_submodule c) n"
    by (simp add: list_all_iff)
  show ?thesis
    using h1 h2 h3 import_resolves_listed_names [OF h1 h2 h3', of demo_ns0]
    by (simp add: list_all_iff)
qed

lemmas demo_defs =
  import_package_def init_body_def import_from_def import_submodule_def resolve_name_def
  package_def demo_loader_def failing_response_loader_def demo_builders_def demo_response_def
  builders_imports_def response_imports_def demo_ns0_def demo_root_def demo_root_retry_def Let_def

lemma demo_first_import:
  "snd (import_package demo_loader demo_ns0 Map.empty) = Inr demo_root"
  by (simp add: demo_defs)

lemma demo_first_import_cache:
  "fst (import_package demo_loader demo_ns0 Map.empty) (resolve_name ''builders'') = Some demo_builders"
  "fst (import_package demo_loader demo_ns0 Map.empty) (resolve_name ''response'') = Some demo_response"
  by (simp_all add: demo_defs)

lemma demo_failed_import:
  "snd (import_package failing_response_loader demo_ns0 Map.empty) = Inl (Raised 0)"
  "fst (import_package failing_response_loader demo_ns0 Map.empty) (resolve_name ''builders'') = Some demo_builders"
  "fst (import_package failing_response_loader demo_ns0 Map.empty) (resolve_name ''response'') = None"
  by (simp_all add: demo_defs)

lemma demo_retry:
  "snd (import_package demo_loader demo_ns0
          (fst (import_package failing_response_loader demo_ns0 Map.empty))) = Inr demo_root_retry"
  by (simp add: demo_defs)







lemma fold_bind_keys:
  "fst ` set (fold (\<lambda>(n, a). AList.update a (the (map_of m n))) cl g) = snd ` set cl \<union> fst ` set g"
proof (induction cl arbitrary: g)
  case Nil
  show ?case by simp
next
  case (Cons c cl)
  obtain n a where c: "c = (n, a)" by (cases c)
  have "fst ` set (fold (\<lambda>(n, a). AList.update a (the (map_of m n))) (c # cl) g) =
          snd ` set cl \<union> ({a} \<union> fst ` set g)"
    by (simp add: c Cons.IH AList.dom_update)
  also have "\<dots> = snd ` set (c # cl) \<union> fst ` set g"
    by (simp add: c)
  finally show ?case .
qed

lemma bind_child_keys:
  "fst ` set ((if P then AList.update k v else id) g) = (if P then {k} else {}) \<union> fst ` set g"
  by (simp add: AList.dom_update)

lemma listed_names_clauses:
  "set listed_names = snd ` set builders_imports \<union> snd ` set response_imports"
proof -
  have "map fst spec_table = map snd builders_imports @ map snd response_imports"
    by (simp add: spec_table_def builders_imports_def response_imports_def)
  then have "set (map fst spec_table) = set (map snd builders_imports @ map snd response_imports)"
    by (rule arg_cong)
  then show ?thesis
    by (simp add: listed_names_def)
qed

lemma loaded_children:
  "{c \<in> {a, b}. P c} = (if P a then {a} else {}) \<union> (if P b then {b} else {})"
  by auto

lemma root_keys:
  assumes "import_package ld ns0 mods = (mods', Inr ns)"
  shows "fst ` set ns = fst ` set ns0 \<union> set listed_names \<union>
           {c \<in> {''builders'', ''response''}. mods (resolve_name c) = None}"
proof -
  from assms obtain mb mr where
    ns: "ns = fold (\<lambda>(n, a). AList.update a (the (map_of mr n))) response_imports
               ((if mods (resolve_name ''response'') = None
                 then AList.update ''response'' (Module (resolve_name ''response''))
                 else id)
                (fold (\<lambda>(n, a). AList.update a (the (map_of mb n))) builders_imports
                  ((if mods (resolve_name ''builders'') = None
                    then AList.update ''builders'' (Module (resolve_name ''builders''))
                    else id) ns0)))"
    unfolding import_package_Inr_iff by blast
  show ?thesis
    unfolding ns fold_bind_keys bind_child_keys listed_names_clauses loaded_children
    by blast
qed

lemma root_lookup_child:
  assumes "import_package ld ns0 mods = (mods', Inr ns)" and "c \<in> {''builders'', ''response''}"
  shows "map_of ns c =
           (if mods (resolve_name c) = None then Some (Module (resolve_name c)) else map_of ns0 c)"
proof -
  from assms obtain mb mr where
    ns: "ns = fold (\<lambda>(n, a). AList.update a (the (map_of mr n))) response_imports
               ((if mods (resolve_name ''response'') = None
                 then AList.update ''response'' (Module (resolve_name ''response''))
                 else id)
                (fold (\<lambda>(n, a). AList.update a (the (map_of mb n))) builders_imports
                  ((if mods (resolve_name ''builders'') = None
                    then AList.update ''builders'' (Module (resolve_name ''builders''))
                    else id) ns0)))"
    unfolding import_package_Inr_iff by blast
  from assms(2) show ?thesis
    unfolding ns
    by (auto simp: builders_imports_def response_imports_def AList.update_conv')
qed

lemma set_public_names:
  "set (public_names ns) = {k \<in> fst ` set ns. \<not> leading_underscore k}"
  by (auto simp: public_names_def)

lemma listed_names_public:
  "n \<in> set listed_names \<Longrightarrow> \<not> leading_underscore n"
  "''builders'' \<notin> set listed_names" "''response'' \<notin> set listed_names"
  "\<not> leading_underscore ''builders''" "\<not> leading_underscore ''response''"
  by (auto simp: listed_names_def spec_table_def)

text \<open>
  C7 (amended). After a successful import the nine listed names are public at the package
  root, and each submodule that the import loaded (one that was not in the module cache
  before, as both are on a first import) is present under its name \<^verbatim>\<open>builders\<close> or
  \<^verbatim>\<open>response\<close> as an attribute bound to the module, a public name that is not among
  the nine.
\<close>

theorem loaded_submodules_are_attributes:
  assumes "import_package ld ns0 mods = (mods', Inr ns)"
  shows "set listed_names \<subseteq> set (public_names ns) \<and>
         (\<forall>c \<in> {''builders'', ''response''}.
            mods (resolve_name c) = None \<longrightarrow>
              map_of ns c = Some (Module (resolve_name c)) \<and>
              c \<in> set (public_names ns) \<and> c \<notin> set listed_names)"
proof -
  have a: "set listed_names \<subseteq> set (public_names ns)"
    unfolding set_public_names root_keys [OF assms]
    using listed_names_public(1) by blast
  have b: "\<forall>c \<in> {''builders'', ''response''}.
            mods (resolve_name c) = None \<longrightarrow>
              map_of ns c = Some (Module (resolve_name c)) \<and>
              c \<in> set (public_names ns) \<and> c \<notin> set listed_names"
  proof (intro ballI impI)
    fix c assume c: "c \<in> {''builders'', ''response''}" and fresh: "mods (resolve_name c) = None"
    from root_lookup_child [OF assms c] fresh
    have v: "map_of ns c = Some (Module (resolve_name c))" by simp
    from c fresh have "c \<in> fst ` set ns"
      unfolding root_keys [OF assms] by blast
    moreover from c have "\<not> leading_underscore c" "c \<notin> set listed_names"
      using listed_names_public(2-5) by blast+
    ultimately show "map_of ns c = Some (Module (resolve_name c)) \<and>
              c \<in> set (public_names ns) \<and> c \<notin> set listed_names"
      using v unfolding set_public_names by blast
  qed
  from a b show ?thesis ..
qed

theorem loaded_submodules_are_attributes_witness:
  "import_package demo_loader demo_ns0 Map.empty =
     (fst (import_package demo_loader demo_ns0 Map.empty), Inr demo_root) \<and>
   (Map.empty :: string \<rightharpoonup> namespace) (resolve_name ''builders'') = None \<and>
   (Map.empty :: string \<rightharpoonup> namespace) (resolve_name ''response'') = None \<and>
   set listed_names \<subseteq> set (public_names demo_root) \<and>
   map_of demo_root ''builders'' = Some (Module (resolve_name ''builders'')) \<and>
   ''builders'' \<in> set (public_names demo_root) \<and> ''builders'' \<notin> set listed_names \<and>
   map_of demo_root ''response'' = Some (Module (resolve_name ''response'')) \<and>
   ''response'' \<in> set (public_names demo_root) \<and> ''response'' \<notin> set listed_names"
proof -
  have h: "import_package demo_loader demo_ns0 Map.empty =
     (fst (import_package demo_loader demo_ns0 Map.empty), Inr demo_root)"
    by (simp add: prod_eq_iff demo_first_import)
  from loaded_submodules_are_attributes [OF h] h show ?thesis
    by simp
qed

text \<open>
  C7 as stated fails. A first import in which loading \<^verbatim>\<open>response\<close> raises leaves
  \<^verbatim>\<open>builders\<close> in the module cache; when the import is repeated and succeeds,
  \<^verbatim>\<open>builders\<close> is taken from the cache and is not bound at the package root.
\<close>

theorem submodule_attribute_counterexample:
  "snd (import_package failing_response_loader demo_ns0 Map.empty) = Inl (Raised 0) \<and>
   snd (import_package demo_loader demo_ns0
          (fst (import_package failing_response_loader demo_ns0 Map.empty))) = Inr demo_root_retry \<and>
   map_of demo_root_retry ''builders'' = None"
proof -
  have "map_of demo_root_retry ''builders'' = None"
    by (simp add: demo_root_retry_def demo_ns0_def)
  with demo_failed_import(1) demo_retry show ?thesis by blast
qed

lemma bind_all_ok:
  assumes "set names \<subseteq> fst ` set m"
  shows "\<exists>ns'. bind_all q m names ns = Inr ns' \<and>
           fst ` set ns' = set names \<union> fst ` set ns \<and>
           (\<forall>k. map_of ns' k = (if k \<in> set names then map_of m k else map_of ns k))"
  using assms
proof (induction names arbitrary: ns)
  case Nil
  show ?case by simp
next
  case (Cons n rest)
  from Cons.prems have "n \<in> fst ` set m" by simp
  then obtain v where v: "map_of m n = Some v"
    by (cases "map_of m n") (simp_all add: map_of_eq_None_iff)
  from Cons.prems have "set rest \<subseteq> fst ` set m" by simp
  from Cons.IH [OF this, of "AList.update n v ns"] obtain ns' where
    r: "bind_all q m rest (AList.update n v ns) = Inr ns'" and
    k: "fst ` set ns' = set rest \<union> fst ` set (AList.update n v ns)" and
    l: "\<forall>k. map_of ns' k = (if k \<in> set rest then map_of m k else map_of (AList.update n v ns) k)"
    by blast
  have "bind_all q m (n # rest) ns = Inr ns'"
    by (simp add: v r)
  moreover have "fst ` set ns' = set (n # rest) \<union> fst ` set ns"
    unfolding k by (simp add: AList.dom_update)
  moreover have "\<forall>k. map_of ns' k = (if k \<in> set (n # rest) then map_of m k else map_of ns k)"
    using l v by (simp add: AList.update_conv')
  ultimately show ?case by blast
qed

lemma clauses_plain:
  "\<forall>(n, a) \<in> set (builders_imports @ response_imports). a = n \<and> \<not> leading_underscore a"
  by (simp add: builders_imports_def response_imports_def)

section \<open>The interpreter with loading effects\<close>

lemma resolve_name_inject: "resolve_name a = resolve_name b \<longleftrightarrow> a = b"
  by (simp add: resolve_name_def)

lemma resolve_name_not_package: "resolve_name a \<noteq> package"
  by (simp add: resolve_name_def)

lemma resolve_name_child: "resolve_name c @ ''.'' @ n = resolve_name (c @ ''.'' @ n)"
  by (simp add: resolve_name_def)

lemma package_child: "package @ ''.'' @ c = resolve_name c"
  by (simp add: resolve_name_def)

lemma newly_loaded_same: "newly_loaded c c = {}"
  by (auto simp: newly_loaded_def)

lemma newly_loaded_split:
  assumes "\<forall>q. a q \<noteq> None \<longrightarrow> b q \<noteq> None" and "\<forall>q. b q \<noteq> None \<longrightarrow> c q \<noteq> None"
  shows "newly_loaded a c = newly_loaded a b \<union> newly_loaded b c"
proof -
  have "\<And>k. (a k = None \<and> c k \<noteq> None) \<longleftrightarrow>
               (a k = None \<and> b k \<noteq> None) \<or> (b k = None \<and> c k \<noteq> None)"
    using assms by (metis option.exhaust)
  then show ?thesis
    unfolding newly_loaded_def by auto
qed

lemma advances_refl: "advances w T st st"
  by (simp add: advances_def newly_loaded_same)

lemma advances_trans:
  assumes a: "advances w T st st'" and b: "advances w T' st' st''"
  shows "advances w (T \<union> T') st st''"
proof -
  have m1: "\<forall>q. mod_cache st q \<noteq> None \<longrightarrow> mod_cache st' q \<noteq> None"
    using a by (simp add: advances_def)
  have m2: "\<forall>q. mod_cache st' q \<noteq> None \<longrightarrow> mod_cache st'' q \<noteq> None"
    using b by (simp add: advances_def)
  have nl: "newly_loaded (mod_cache st) (mod_cache st'') =
              newly_loaded (mod_cache st) (mod_cache st') \<union> newly_loaded (mod_cache st') (mod_cache st'')"
    by (rule newly_loaded_split [OF m1 m2])
  have r1: "\<And>k. map_of (pkg_globals st') k =
        (if k \<in> newly_loaded (mod_cache st) (mod_cache st') then Some (Module (resolve_name k))
         else map_of (pkg_globals st) k)"
    using a by (simp add: advances_def)
  have r2: "\<And>k. map_of (pkg_globals st'') k =
        (if k \<in> newly_loaded (mod_cache st') (mod_cache st'') then Some (Module (resolve_name k))
         else map_of (pkg_globals st') k)"
    using b by (simp add: advances_def)
  have M: "\<forall>q. mod_cache st q \<noteq> None \<longrightarrow> mod_cache st'' q \<noteq> None"
    using m1 m2 by blast
  have R: "\<forall>k. map_of (pkg_globals st'') k =
        (if k \<in> newly_loaded (mod_cache st) (mod_cache st'') then Some (Module (resolve_name k))
         else map_of (pkg_globals st) k)"
    by (simp add: r2 r1 nl)
  have c1: "\<And>q m. q \<notin> T \<Longrightarrow> mod_cache st q = Some m \<Longrightarrow> mod_cache st' q = Some m"
    using a by (simp add: advances_def)
  have c2: "\<And>q m. q \<notin> T' \<Longrightarrow> mod_cache st' q = Some m \<Longrightarrow> mod_cache st'' q = Some m"
    using b by (simp add: advances_def)
  have n1: "\<And>q m. q \<notin> T \<Longrightarrow> mod_cache st q = None \<Longrightarrow> mod_cache st' q = Some m \<Longrightarrow>
        outcome (w q) = Inr m"
    using a by (simp add: advances_def)
  have n2: "\<And>q m. q \<notin> T' \<Longrightarrow> mod_cache st' q = None \<Longrightarrow> mod_cache st'' q = Some m \<Longrightarrow>
        outcome (w q) = Inr m"
    using b by (simp add: advances_def)
  have C: "\<forall>q m. q \<notin> T \<union> T' \<longrightarrow> mod_cache st q = Some m \<longrightarrow> mod_cache st'' q = Some m"
    using c1 c2 by blast
  have N: "\<forall>q m. q \<notin> T \<union> T' \<longrightarrow> mod_cache st q = None \<longrightarrow> mod_cache st'' q = Some m \<longrightarrow>
        outcome (w q) = Inr m"
  proof (intro allI impI)
    fix q m assume q: "q \<notin> T \<union> T'" and 0: "mod_cache st q = None" and 2: "mod_cache st'' q = Some m"
    show "outcome (w q) = Inr m"
    proof (cases "mod_cache st' q")
      case None
      with n2 q 2 show ?thesis by blast
    next
      case (Some m1)
      with n1 q 0 have "outcome (w q) = Inr m1" by blast
      moreover from c2 q Some have "mod_cache st'' q = Some m1" by blast
      ultimately show ?thesis using 2 by simp
    qed
  qed
  have H: "\<forall>a. (\<forall>q. a \<notin> fst ` set (heap_writes (w q))) \<longrightarrow> obj_heap st'' a = obj_heap st a"
    using a b by (simp add: advances_def)
  have P: "mod_cache st'' package = mod_cache st package"
    using a b by (simp add: advances_def)
  from M R C N H P show ?thesis
    unfolding advances_def by blast
qed

lemma advances_mono: "advances w T st st' \<Longrightarrow> T \<subseteq> T' \<Longrightarrow> advances w T' st st'"
  unfolding advances_def by blast

lemma heap_fold_other:
  "a \<notin> fst ` set ws \<Longrightarrow> fold (\<lambda>(a, x) h. h(a := x)) ws h a = h a"
  by (induction ws arbitrary: h) auto

lemma advances_run_code:
  assumes "advances w T st st1"
  shows "advances w T st (run_code (w q) st1)"
proof -
  have "\<forall>a. (\<forall>q. a \<notin> fst ` set (heap_writes (w q))) \<longrightarrow>
          obj_heap (run_code (w q) st1) a = obj_heap st1 a"
    by (simp add: run_code_def heap_fold_other)
  then show ?thesis
    using assms unfolding advances_def by (simp add: run_code_def)
qed

lemma direct_child_resolve:
  "direct_child (resolve_name c) = (if CHR ''.'' \<in> set c then None else Some c)"
  by (simp add: direct_child_def resolve_name_def)

lemma direct_child_Some:
  "direct_child q = Some c \<Longrightarrow> q = resolve_name c \<and> CHR ''.'' \<notin> set c"
proof -
  assume a: "direct_child q = Some c"
  then have t: "take (length package + 1) q = package @ ''.''"
    and c: "c = drop (length package + 1) q" and n: "CHR ''.'' \<notin> set c"
    by (auto simp: direct_child_def Let_def split: if_splits)
  have "q = take (length package + 1) q @ drop (length package + 1) q" by simp
  also have "\<dots> = (package @ ''.'') @ c" unfolding t c ..
  finally have "q = resolve_name c" by (simp add: resolve_name_def)
  with n show ?thesis by simp
qed

lemma direct_child_None:
  "direct_child q = None \<Longrightarrow> CHR ''.'' \<notin> set c \<Longrightarrow> q \<noteq> resolve_name c"
  using direct_child_resolve [of c] by auto

lemma advances_enter:
  assumes adv: "advances w T st st1"
      and fresh: "mod_cache st q = None"
      and out: "outcome (w q) = Inr m"
      and nt: "q \<notin> T"
      and np: "q \<noteq> package"
  shows "advances w T st
           (st1\<lparr>mod_cache := (mod_cache st1)(q \<mapsto> m),
                pkg_globals := (case direct_child q of
                                  None \<Rightarrow> pkg_globals st1
                                | Some c \<Rightarrow> AList.update c (Module q) (pkg_globals st1))\<rparr>)"
    (is "advances w T st ?st2")
proof -
  have m1: "\<forall>q. mod_cache st q \<noteq> None \<longrightarrow> mod_cache st1 q \<noteq> None"
    using adv by (simp add: advances_def)
  have r1: "\<And>k. map_of (pkg_globals st1) k =
        (if k \<in> newly_loaded (mod_cache st) (mod_cache st1) then Some (Module (resolve_name k))
         else map_of (pkg_globals st) k)"
    using adv by (simp add: advances_def)
  have c1: "\<And>q m. q \<notin> T \<Longrightarrow> mod_cache st q = Some m \<Longrightarrow> mod_cache st1 q = Some m"
    using adv by (simp add: advances_def)
  have n1: "\<And>q m. q \<notin> T \<Longrightarrow> mod_cache st q = None \<Longrightarrow> mod_cache st1 q = Some m \<Longrightarrow>
        outcome (w q) = Inr m"
    using adv by (simp add: advances_def)
  have M: "\<forall>q. mod_cache st q \<noteq> None \<longrightarrow> mod_cache ?st2 q \<noteq> None"
    using m1 by simp
  have R: "\<forall>k. map_of (pkg_globals ?st2) k =
        (if k \<in> newly_loaded (mod_cache st) (mod_cache ?st2) then Some (Module (resolve_name k))
         else map_of (pkg_globals st) k)"
  proof (cases "direct_child q")
    case None
    have "newly_loaded (mod_cache st) (mod_cache ?st2) =
            newly_loaded (mod_cache st) (mod_cache st1)"
      using direct_child_None [OF None] by (auto simp: newly_loaded_def)
    then show ?thesis using None by (simp add: r1)
  next
    case (Some c)
    from direct_child_Some [OF Some] have q: "q = resolve_name c" and d: "CHR ''.'' \<notin> set c"
      by simp_all
    have "newly_loaded (mod_cache st) (mod_cache ?st2) =
            newly_loaded (mod_cache st) (mod_cache st1) \<union> {c}"
      using fresh d unfolding q by (auto simp: newly_loaded_def resolve_name_inject)
    then show ?thesis using Some by (simp add: r1 AList.update_conv' q)
  qed
  have C: "\<forall>q m. q \<notin> T \<longrightarrow> mod_cache st q = Some m \<longrightarrow> mod_cache ?st2 q = Some m"
    using c1 fresh by auto
  have N: "\<forall>q m'. q \<notin> T \<longrightarrow> mod_cache st q = None \<longrightarrow> mod_cache ?st2 q = Some m' \<longrightarrow>
        outcome (w q) = Inr m'"
    using n1 out by auto
  have H: "\<forall>a. (\<forall>q. a \<notin> fst ` set (heap_writes (w q))) \<longrightarrow> obj_heap ?st2 a = obj_heap st a"
    using adv by (simp add: advances_def)
  have P: "mod_cache ?st2 package = mod_cache st package"
    using adv np by (simp add: advances_def)
  from M R C N H P show ?thesis
    unfolding advances_def by blast
qed

lemma advances_enter_module:
  assumes "advances w T st st1" and "\<forall>q \<in> T. mod_cache st q \<noteq> None"
  shows "advances w T st (enter_module w q st1)"
proof (cases "q = package")
  case True
  then show ?thesis using assms(1) by (simp add: enter_module_def)
next
  case np: False
  show ?thesis
  proof (cases "mod_cache st1 q")
    case (Some m)
    then show ?thesis using assms(1) by (simp add: enter_module_def)
  next
    case None
    have m1: "\<forall>q. mod_cache st q \<noteq> None \<longrightarrow> mod_cache st1 q \<noteq> None"
      using assms(1) by (simp add: advances_def)
    with None have fresh: "mod_cache st q = None" by (cases "mod_cache st q") auto
    with assms(2) have nt: "q \<notin> T" by blast
    have rc: "advances w T st (run_code (w q) st1)"
      by (rule advances_run_code [OF assms(1)])
    show ?thesis
    proof (cases "outcome (w q)")
      case (Inl e)
      with None np rc show ?thesis by (simp add: enter_module_def Let_def)
    next
      case (Inr m)
      let ?rc = "run_code (w q) st1"
      have eq: "enter_module w q st1 =
          ?rc\<lparr>mod_cache := (mod_cache ?rc)(q \<mapsto> m),
              pkg_globals := (case direct_child q of
                                None \<Rightarrow> pkg_globals ?rc
                              | Some c \<Rightarrow> AList.update c (Module q) (pkg_globals ?rc))\<rparr>"
        using None Inr np by (simp add: enter_module_def Let_def)
      show ?thesis
        unfolding eq by (rule advances_enter [OF rc fresh Inr nt np])
    qed
  qed
qed

lemma advances_modules:
  assumes "advances w T st st1" and "\<forall>q \<in> T. mod_cache st q \<noteq> None"
  shows "advances w T st (fold (enter_module w) ss st1)"
  using assms(1)
proof (induction ss arbitrary: st1)
  case Nil
  then show ?case by simp
next
  case (Cons s ss)
  from advances_enter_module [OF Cons.prems assms(2)]
  have "advances w T st (enter_module w s st1)" .
  from Cons.IH [OF this] show ?case by simp
qed

lemma advances_modules_here: "advances w {} st (fold (enter_module w) ss (run_code (w q) st))"
proof -
  have "advances w {} st (run_code (w q) st)"
    by (rule advances_run_code [OF advances_refl])
  then show ?thesis
    by (rule advances_modules) simp
qed

lemma load_module_cached:
  "mod_cache st (owner @ ''.'' @ child) = Some m \<Longrightarrow> load_module w owner child st = (st, Inr m)"
  by (simp add: load_module_def)

lemma load_module_raises:
  "mod_cache st (owner @ ''.'' @ child) = None \<Longrightarrow> outcome (w (owner @ ''.'' @ child)) = Inl e \<Longrightarrow>
     load_module w owner child st =
       (fold (enter_module w) (meanwhile (w (owner @ ''.'' @ child)))
          (run_code (w (owner @ ''.'' @ child)) st), Inl e)"
  by (simp add: load_module_def Let_def)

lemma load_module_loads:
  "mod_cache st (owner @ ''.'' @ child) = None \<Longrightarrow> outcome (w (owner @ ''.'' @ child)) = Inr m \<Longrightarrow>
     load_module w owner child st =
       (set_attr owner child (Module (owner @ ''.'' @ child))
          ((fold (enter_module w) (meanwhile (w (owner @ ''.'' @ child)))
              (run_code (w (owner @ ''.'' @ child)) st))
           \<lparr>mod_cache :=
               (mod_cache (fold (enter_module w) (meanwhile (w (owner @ ''.'' @ child)))
                  (run_code (w (owner @ ''.'' @ child)) st)))(owner @ ''.'' @ child \<mapsto> m)\<rparr>),
        Inr m)"
  by (simp add: load_module_def Let_def)

lemma set_attr_package:
  "set_attr package k v st = st\<lparr>pkg_globals := AList.update k v (pkg_globals st)\<rparr>"
  by (simp add: set_attr_def)

lemma newly_loaded_update:
  "b q \<noteq> None \<Longrightarrow> newly_loaded a (b(q \<mapsto> x)) = newly_loaded a b"
  by (auto simp: newly_loaded_def)

lemma advances_set_attr:
  assumes adv: "advances w T st st2" and np: "owner \<noteq> package" and inT: "owner \<in> T"
  shows "advances w T st (set_attr owner k v st2)"
proof (cases "mod_cache st2 owner")
  case None
  with adv np show ?thesis by (simp add: set_attr_def)
next
  case (Some m)
  let ?st3 = "st2\<lparr>mod_cache := (mod_cache st2)(owner \<mapsto> AList.update k v m)\<rparr>"
  have eq: "set_attr owner k v st2 = ?st3"
    using np Some by (simp add: set_attr_def)
  have nl: "newly_loaded (mod_cache st) (mod_cache ?st3) = newly_loaded (mod_cache st) (mod_cache st2)"
    using Some by (simp add: newly_loaded_update)
  have M: "\<forall>q. mod_cache st q \<noteq> None \<longrightarrow> mod_cache ?st3 q \<noteq> None"
    using adv by (simp add: advances_def)
  have R: "\<forall>k. map_of (pkg_globals ?st3) k =
        (if k \<in> newly_loaded (mod_cache st) (mod_cache ?st3) then Some (Module (resolve_name k))
         else map_of (pkg_globals st) k)"
    unfolding nl using adv by (simp add: advances_def)
  have C: "\<forall>q m. q \<notin> T \<longrightarrow> mod_cache st q = Some m \<longrightarrow> mod_cache ?st3 q = Some m"
    using adv inT unfolding advances_def by auto
  have N: "\<forall>q m'. q \<notin> T \<longrightarrow> mod_cache st q = None \<longrightarrow> mod_cache ?st3 q = Some m' \<longrightarrow>
        outcome (w q) = Inr m'"
    using adv inT unfolding advances_def by auto
  have H: "\<forall>a. (\<forall>q. a \<notin> fst ` set (heap_writes (w q))) \<longrightarrow> obj_heap ?st3 a = obj_heap st a"
    using adv by (simp add: advances_def)
  have P: "mod_cache ?st3 package = mod_cache st package"
    using adv np by (simp add: advances_def)
  from M R C N H P show ?thesis
    unfolding eq advances_def by blast
qed

lemma load_module_package:
  assumes dotfree: "CHR ''.'' \<notin> set c"
  shows "advances w {} st (fst (load_module w package c st)) \<and>
         (\<forall>m. snd (load_module w package c st) = Inr m \<longrightarrow>
            mod_cache (fst (load_module w package c st)) (resolve_name c) = Some m \<and>
            find_module w (mod_cache st) (resolve_name c) = Inr m) \<and>
         (\<forall>e. snd (load_module w package c st) = Inl e \<longrightarrow>
            find_module w (mod_cache st) (resolve_name c) = Inl e)"
proof (cases "mod_cache st (resolve_name c)")
  case (Some m)
  then have "mod_cache st (package @ ''.'' @ c) = Some m"
    unfolding package_child .
  from load_module_cached [OF this] Some show ?thesis
    by (simp add: advances_refl find_module_def)
next
  case None
  let ?q = "resolve_name c"
  let ?st1 = "fold (enter_module w) (meanwhile (w ?q)) (run_code (w ?q) st)"
  have a1: "advances w {} st ?st1" by (rule advances_modules_here)
  from None have none: "mod_cache st (package @ ''.'' @ c) = None"
    unfolding package_child .
  show ?thesis
  proof (cases "outcome (w ?q)")
    case (Inl e)
    then have "outcome (w (package @ ''.'' @ c)) = Inl e"
      unfolding package_child .
    from load_module_raises [where w = w and owner = package and child = c, OF none this, unfolded package_child]
    have eq: "load_module w package c st = (?st1, Inl e)" .
    show ?thesis
      unfolding eq using a1 None Inl by (simp add: find_module_def)
  next
    case (Inr m)
    let ?st2 = "?st1\<lparr>mod_cache := (mod_cache ?st1)(?q \<mapsto> m),
                     pkg_globals := (case direct_child ?q of
                                       None \<Rightarrow> pkg_globals ?st1
                                     | Some c \<Rightarrow> AList.update c (Module ?q) (pkg_globals ?st1))\<rparr>"
    have a2: "advances w {} st ?st2"
      by (rule advances_enter [OF a1 None Inr _ resolve_name_not_package]) simp
    from Inr have "outcome (w (package @ ''.'' @ c)) = Inr m"
      unfolding package_child .
    from load_module_loads [where w = w and owner = package and child = c, OF none this, unfolded package_child set_attr_package]
    have "load_module w package c st =
            (?st1\<lparr>mod_cache := (mod_cache ?st1)(?q \<mapsto> m),
                  pkg_globals := AList.update c (Module ?q) (pkg_globals ?st1)\<rparr>, Inr m)"
      by simp
    then have eq: "load_module w package c st = (?st2, Inr m)"
      using dotfree by (simp add: direct_child_resolve)
    show ?thesis
      unfolding eq using a2 None Inr by (simp add: find_module_def)
  qed
qed

lemma load_module_origin:
  "advances w {resolve_name c} st (fst (load_module w (resolve_name c) n st))"
proof (cases "mod_cache st (resolve_name c @ ''.'' @ n)")
  case (Some m)
  from load_module_cached [OF this] show ?thesis
    by (simp add: advances_refl)
next
  case None
  let ?s = "c @ ''.'' @ n"
  let ?q = "resolve_name ?s"
  let ?st1 = "fold (enter_module w) (meanwhile (w ?q)) (run_code (w ?q) st)"
  have a1: "advances w {} st ?st1" by (rule advances_modules_here)
  show ?thesis
  proof (cases "outcome (w (resolve_name c @ ''.'' @ n))")
    case (Inl e)
    from load_module_raises [where w = w and owner = "resolve_name c" and child = n, OF None Inl, unfolded resolve_name_child]
    have eq: "load_module w (resolve_name c) n st = (?st1, Inl e)" .
    have "advances w {} st (fst (load_module w (resolve_name c) n st))"
      unfolding eq using a1 by simp
    then show ?thesis by (rule advances_mono) simp
  next
    case (Inr m)
    let ?st2 = "?st1\<lparr>mod_cache := (mod_cache ?st1)(?q \<mapsto> m),
                     pkg_globals := (case direct_child ?q of
                                       None \<Rightarrow> pkg_globals ?st1
                                     | Some c \<Rightarrow> AList.update c (Module ?q) (pkg_globals ?st1))\<rparr>"
    from None have fresh: "mod_cache st ?q = None"
      unfolding resolve_name_child .
    from Inr have out: "outcome (w ?q) = Inr m"
      unfolding resolve_name_child .
    have "advances w {} st ?st2"
      by (rule advances_enter [OF a1 fresh out _ resolve_name_not_package]) simp
    then have a2: "advances w {resolve_name c} st ?st2"
      by (rule advances_mono) simp
    have st2: "?st2 = ?st1\<lparr>mod_cache := (mod_cache ?st1)(?q \<mapsto> m)\<rparr>"
      by (simp add: direct_child_resolve)
    from load_module_loads [where w = w and owner = "resolve_name c" and child = n, OF None Inr, unfolded resolve_name_child]
    have eq: "load_module w (resolve_name c) n st =
                (set_attr (resolve_name c) n (Module ?q) ?st2, Inr m)"
      unfolding st2 .
    show ?thesis
      unfolding eq fst_conv
      by (rule advances_set_attr [OF a2 resolve_name_not_package]) simp
  qed
qed

lemma load_module_failure_keeps:
  assumes "load_module w owner n st = (st', Inl e)"
  shows "advances w {} st st'"
proof (cases "mod_cache st (owner @ ''.'' @ n)")
  case (Some m)
  from load_module_cached [OF this] assms show ?thesis by simp
next
  case None
  show ?thesis
  proof (cases "outcome (w (owner @ ''.'' @ n))")
    case (Inl e')
    from load_module_raises [where w = w and owner = owner and child = n, OF None Inl] assms
    have "st' = fold (enter_module w) (meanwhile (w (owner @ ''.'' @ n)))
                  (run_code (w (owner @ ''.'' @ n)) st)"
      by simp
    then show ?thesis by (simp only: advances_modules_here)
  next
    case (Inr m)
    from load_module_loads [where w = w and owner = owner and child = n, OF None Inr] assms show ?thesis by simp
  qed
qed

lemma advances_cached:
  "advances w T st st' \<Longrightarrow> mod_cache st q \<noteq> None \<Longrightarrow> mod_cache st' q \<noteq> None"
  unfolding advances_def by blast

lemma advances_keeps:
  "advances w T st st' \<Longrightarrow> q \<notin> T \<Longrightarrow> mod_cache st q = Some m \<Longrightarrow> mod_cache st' q = Some m"
  unfolding advances_def by blast

lemma advances_same_set:
  assumes "advances w T st st'" and "advances w T st' st''"
  shows "advances w T st st''"
  using advances_trans [OF assms] by simp

lemma handle_fromlist_advances:
  assumes "mod_cache st (resolve_name c) = Some m"
  shows "advances w {resolve_name c} st (fst (handle_fromlist w (resolve_name c) m names st)) \<and>
         (\<forall>m'. snd (handle_fromlist w (resolve_name c) m names st) = Inr m' \<longrightarrow>
            mod_cache (fst (handle_fromlist w (resolve_name c) m names st)) (resolve_name c) = Some m')"
  using assms
proof (induction names arbitrary: m st)
  case Nil
  then show ?case by (simp add: advances_refl)
next
  case (Cons n rest)
  let ?q = "resolve_name c"
  show ?case
  proof (cases "map_of m n")
    case (Some v)
    with Cons.IH [OF Cons.prems] show ?thesis by simp
  next
    case None
    obtain st' r where l: "load_module w ?q n st = (st', r)" by (cases "load_module w ?q n st")
    from load_module_origin [of w c st n] l have a1: "advances w {?q} st st'" by simp
    show ?thesis
    proof (cases r)
      case (Inr sub)
      from Cons.prems have "mod_cache st ?q \<noteq> None" by simp
      from advances_cached [OF a1 this] obtain m2 where m2: "mod_cache st' ?q = Some m2"
        by blast
      from Cons.IH [OF m2]
      have ih: "advances w {?q} st' (fst (handle_fromlist w ?q m2 rest st'))"
        "\<forall>m'. snd (handle_fromlist w ?q m2 rest st') = Inr m' \<longrightarrow>
            mod_cache (fst (handle_fromlist w ?q m2 rest st')) ?q = Some m'"
        by blast+
      have eq: "handle_fromlist w ?q m (n # rest) st = handle_fromlist w ?q m2 rest st'"
        using None l Inr m2 by simp
      show ?thesis
        unfolding eq using advances_same_set [OF a1 ih(1)] ih(2) by blast
    next
      case (Inl e)
      show ?thesis
      proof (cases "e = ModuleNotFoundError (?q @ ''.'' @ n)")
        case True
        from l Inl have "advances w {} st st'"
          using load_module_failure_keeps by blast
        from advances_keeps [OF this _ Cons.prems] have m': "mod_cache st' ?q = Some m" by simp
        from Cons.IH [OF m']
        have ih: "advances w {?q} st' (fst (handle_fromlist w ?q m rest st'))"
          "\<forall>m'. snd (handle_fromlist w ?q m rest st') = Inr m' \<longrightarrow>
              mod_cache (fst (handle_fromlist w ?q m rest st')) ?q = Some m'"
          by blast+
        have eq: "handle_fromlist w ?q m (n # rest) st = handle_fromlist w ?q m rest st'"
          using None l Inl True by simp
        show ?thesis
          unfolding eq using advances_same_set [OF a1 ih(1)] ih(2) by blast
      next
        case False
        have eq: "handle_fromlist w ?q m (n # rest) st = (st', Inl e)"
          using None l Inl False by simp
        show ?thesis
          unfolding eq using a1 by simp
      qed
    qed
  qed
qed

lemma bind_clauses_keeps:
  "mod_cache (fst (bind_clauses q m cl st)) = mod_cache st \<and>
   obj_heap (fst (bind_clauses q m cl st)) = obj_heap st"
proof (induction cl arbitrary: st)
  case Nil
  show ?case by simp
next
  case (Cons c cl)
  obtain n a where c: "c = (n, a)" by (cases c)
  show ?case
  proof (cases "import_attr (mod_cache st) q m n")
    case None
    then show ?thesis by (simp add: c)
  next
    case (Some v)
    with Cons.IH [of "st\<lparr>pkg_globals := AList.update a v (pkg_globals st)\<rparr>"]
    show ?thesis by (simp add: c)
  qed
qed

lemma bind_clauses_None_iff:
  "bind_clauses q m cl st = (st', None) \<longleftrightarrow>
     (\<forall>(n, a) \<in> set cl. import_attr (mod_cache st) q m n \<noteq> None) \<and>
     st' = st\<lparr>pkg_globals :=
                fold (\<lambda>(n, a). AList.update a (the (import_attr (mod_cache st) q m n))) cl
                  (pkg_globals st)\<rparr>"
proof (induction cl arbitrary: st)
  case Nil
  show ?case by auto
next
  case (Cons c cl)
  obtain n a where c: "c = (n, a)" by (cases c)
  show ?case
  proof (cases "import_attr (mod_cache st) q m n")
    case None
    then show ?thesis by (simp add: c)
  next
    case (Some v)
    then show ?thesis by (simp add: c Cons.IH)
  qed
qed

lemma import_from_stmt_success:
  assumes run: "import_from_stmt w c cl st = (st', None)" and dotfree: "CHR ''.'' \<notin> set c"
  shows "\<exists>st2 m2.
           advances w {resolve_name c} st st2 \<and>
           mod_cache st2 (resolve_name c) = Some m2 \<and>
           (\<forall>(n, a) \<in> set cl. import_attr (mod_cache st2) (resolve_name c) m2 n \<noteq> None) \<and>
           st' = st2\<lparr>pkg_globals :=
                      fold (\<lambda>(n, a). AList.update a
                              (the (import_attr (mod_cache st2) (resolve_name c) m2 n))) cl
                        (pkg_globals st2)\<rparr>"
proof -
  let ?q = "resolve_name c"
  obtain st1 r where l: "load_module w package c st = (st1, r)"
    by (cases "load_module w package c st")
  from run l obtain m where r: "r = Inr m"
    by (cases r) (simp_all add: import_from_stmt_def)
  from load_module_package [OF dotfree, of w st] l r
  have a1: "advances w {} st st1" and c1: "mod_cache st1 ?q = Some m"
    by simp_all
  from a1 have a1': "advances w {?q} st st1" by (rule advances_mono) simp
  obtain st2 r2 where h: "(if map_of m ''__path__'' = None then (st1, Inr m)
                 else handle_fromlist w ?q m (map fst cl) st1) = (st2, r2)"
    by (cases "if map_of m ''__path__'' = None then (st1, Inr m)
                 else handle_fromlist w ?q m (map fst cl) st1")
  from run l r h obtain m2 where r2: "r2 = Inr m2"
    by (cases r2) (simp_all add: import_from_stmt_def)
  have a2: "advances w {?q} st1 st2 \<and> mod_cache st2 ?q = Some m2"
  proof (cases "map_of m ''__path__'' = None")
    case True
    with h r2 c1 show ?thesis by (simp add: advances_refl)
  next
    case False
    with h have hh: "handle_fromlist w ?q m (map fst cl) st1 = (st2, Inr m2)"
      by (simp add: r2)
    from handle_fromlist_advances [OF c1, of w "map fst cl"] hh show ?thesis by simp
  qed
  from run l r h r2 have b: "bind_clauses ?q m2 cl st2 = (st', None)"
    by (simp add: import_from_stmt_def)
  from b [unfolded bind_clauses_None_iff] advances_same_set [OF a1'] a2
  show ?thesis by blast
qed

lemma fold_update_keys:
  "fst ` set (fold (\<lambda>(n, a). AList.update a (f n)) cl g) = snd ` set cl \<union> fst ` set g"
proof (induction cl arbitrary: g)
  case Nil
  show ?case by simp
next
  case (Cons c cl)
  obtain n a where c: "c = (n, a)" by (cases c)
  have "fst ` set (fold (\<lambda>(n, a). AList.update a (f n)) (c # cl) g) =
          snd ` set cl \<union> ({a} \<union> fst ` set g)"
    by (simp add: c Cons.IH AList.dom_update)
  also have "\<dots> = snd ` set (c # cl) \<union> fst ` set g"
    by (simp add: c)
  finally show ?case .
qed

lemma fold_update_other:
  "k \<notin> snd ` set cl \<Longrightarrow> map_of (fold (\<lambda>(n, a). AList.update a (f n)) cl g) k = map_of g k"
  by (induction cl arbitrary: g) (auto simp: AList.update_conv')

lemma fold_update_hit:
  "distinct (map snd cl) \<Longrightarrow> (n, a) \<in> set cl \<Longrightarrow>
     map_of (fold (\<lambda>(n, a). AList.update a (f n)) cl g) a = Some (f n)"
proof (induction cl arbitrary: g)
  case Nil
  then show ?case by simp
next
  case (Cons c cl)
  obtain n' a' where c: "c = (n', a')" by (cases c)
  show ?case
  proof (cases "(n, a) \<in> set cl")
    case True
    with Cons show ?thesis by (simp add: c)
  next
    case False
    with Cons.prems have e: "n' = n" "a' = a" and "a \<notin> snd ` set cl"
      by (auto simp: c)
    then show ?thesis
      by (simp add: c fold_update_other AList.update_conv')
  qed
qed

lemma advances_keys:
  assumes "advances w T st st'"
  shows "fst ` set (pkg_globals st') =
           fst ` set (pkg_globals st) \<union> newly_loaded (mod_cache st) (mod_cache st')"
proof -
  have r: "\<And>k. map_of (pkg_globals st') k =
        (if k \<in> newly_loaded (mod_cache st) (mod_cache st') then Some (Module (resolve_name k))
         else map_of (pkg_globals st) k)"
    using assms by (simp add: advances_def)
  have "\<And>k. k \<in> dom (map_of (pkg_globals st')) \<longleftrightarrow>
          k \<in> dom (map_of (pkg_globals st)) \<union> newly_loaded (mod_cache st) (mod_cache st')"
    by (simp add: dom_def r)
  then show ?thesis
    unfolding dom_map_of_conv_image_fst by blast
qed

lemma import_attr_mono:
  assumes "\<forall>q. a q \<noteq> None \<longrightarrow> b q \<noteq> None" and "import_attr a q m n \<noteq> None"
  shows "import_attr b q m n = import_attr a q m n"
proof (cases "map_of m n")
  case (Some v)
  then show ?thesis by (simp add: import_attr_def)
next
  case None
  with assms(2) have "a (q @ ''.'' @ n) \<noteq> None"
    by (auto simp: import_attr_def split: option.splits)
  moreover with assms(1) have "b (q @ ''.'' @ n) \<noteq> None" by blast
  ultimately show ?thesis using None
    by (auto simp: import_attr_def split: option.splits)
qed

lemma clause_names_distinct:
  "distinct (map snd builders_imports)" "distinct (map snd response_imports)"
  "snd ` set builders_imports \<inter> snd ` set response_imports = {}"
  by (simp_all add: builders_imports_def response_imports_def)

lemma table_clauses:
  "(n, c) \<in> set spec_table \<longleftrightarrow>
     (c = ''builders'' \<and> (n, n) \<in> set builders_imports) \<or>
     (c = ''response'' \<and> (n, n) \<in> set response_imports)"
  by (auto simp: spec_table_def builders_imports_def response_imports_def)

lemma run_init_effect:
  assumes run: "run_init w st0 = (st', None)"
  shows cached_stay: "\<forall>q. mod_cache st0 q \<noteq> None \<longrightarrow> mod_cache st' q \<noteq> None"
    and other_names: "\<forall>k. k \<notin> set listed_names \<longrightarrow>
          map_of (pkg_globals st') k =
            (if k \<in> newly_loaded (mod_cache st0) (mod_cache st') then Some (Module (resolve_name k))
             else map_of (pkg_globals st0) k)"
    and all_keys: "fst ` set (pkg_globals st') =
          fst ` set (pkg_globals st0) \<union> set listed_names \<union>
          newly_loaded (mod_cache st0) (mod_cache st')"
    and cache_keeps: "\<forall>q m. q \<notin> {resolve_name ''builders'', resolve_name ''response''} \<longrightarrow>
          mod_cache st0 q = Some m \<longrightarrow> mod_cache st' q = Some m"
    and cache_new: "\<forall>q m. q \<notin> {resolve_name ''builders'', resolve_name ''response''} \<longrightarrow>
          mod_cache st0 q = None \<longrightarrow> mod_cache st' q = Some m \<longrightarrow> outcome (w q) = Inr m"
    and heap_keeps: "\<forall>a. (\<forall>q. a \<notin> fst ` set (heap_writes (w q))) \<longrightarrow>
          obj_heap st' a = obj_heap st0 a"
    and package_entry: "mod_cache st' package = mod_cache st0 package"
    and listed_values: "\<forall>(n, c) \<in> set spec_table.
          n \<notin> newly_loaded (mod_cache st0) (mod_cache st') \<longrightarrow>
          (\<exists>m. mod_cache st' (resolve_name c) = Some m \<and>
               map_of (pkg_globals st') n = import_attr (mod_cache st') (resolve_name c) m n \<and>
               map_of (pkg_globals st') n \<noteq> None)"
    and origins_cached: "mod_cache st' (resolve_name ''builders'') \<noteq> None"
          "mod_cache st' (resolve_name ''response'') \<noteq> None"
proof -
  let ?qb = "resolve_name ''builders''" and ?qr = "resolve_name ''response''"
  from run obtain sa where
    s1: "import_from_stmt w ''builders'' builders_imports st0 = (sa, None)" and
    s2: "import_from_stmt w ''response'' response_imports sa = (st', None)"
    by (auto simp: run_init_def split: prod.splits option.splits)
  from import_from_stmt_success [OF s1] obtain s2a mb where
    a1: "advances w {?qb} st0 s2a" and cb: "mod_cache s2a ?qb = Some mb" and
    pb: "\<forall>(n, a) \<in> set builders_imports. import_attr (mod_cache s2a) ?qb mb n \<noteq> None" and
    sa: "sa = s2a\<lparr>pkg_globals :=
                   fold (\<lambda>(n, a). AList.update a (the (import_attr (mod_cache s2a) ?qb mb n)))
                     builders_imports (pkg_globals s2a)\<rparr>"
    by auto
  from import_from_stmt_success [OF s2] obtain s4 mr where
    a2: "advances w {?qr} sa s4" and cr: "mod_cache s4 ?qr = Some mr" and
    pr: "\<forall>(n, a) \<in> set response_imports. import_attr (mod_cache s4) ?qr mr n \<noteq> None" and
    st': "st' = s4\<lparr>pkg_globals :=
                   fold (\<lambda>(n, a). AList.update a (the (import_attr (mod_cache s4) ?qr mr n)))
                     response_imports (pkg_globals s4)\<rparr>"
    by auto
  have ca: "mod_cache sa = mod_cache s2a" and ha: "obj_heap sa = obj_heap s2a"
    by (simp_all add: sa)
  have c': "mod_cache st' = mod_cache s4" and h': "obj_heap st' = obj_heap s4"
    by (simp_all add: st')
  have m1: "\<forall>q. mod_cache st0 q \<noteq> None \<longrightarrow> mod_cache s2a q \<noteq> None"
    using a1 by (simp add: advances_def)
  have m2: "\<forall>q. mod_cache s2a q \<noteq> None \<longrightarrow> mod_cache s4 q \<noteq> None"
    using a2 by (simp add: advances_def ca)
  have nl: "newly_loaded (mod_cache st0) (mod_cache s4) =
              newly_loaded (mod_cache st0) (mod_cache s2a) \<union> newly_loaded (mod_cache s2a) (mod_cache s4)"
    by (rule newly_loaded_split [OF m1 m2])
  have r1: "\<And>k. map_of (pkg_globals s2a) k =
        (if k \<in> newly_loaded (mod_cache st0) (mod_cache s2a) then Some (Module (resolve_name k))
         else map_of (pkg_globals st0) k)"
    using a1 by (simp add: advances_def)
  have r2: "\<And>k. map_of (pkg_globals s4) k =
        (if k \<in> newly_loaded (mod_cache s2a) (mod_cache s4) then Some (Module (resolve_name k))
         else map_of (pkg_globals sa) k)"
    using a2 by (simp add: advances_def ca)
  show "\<forall>q. mod_cache st0 q \<noteq> None \<longrightarrow> mod_cache st' q \<noteq> None"
    unfolding c' using m1 m2 by blast
  show "\<forall>k. k \<notin> set listed_names \<longrightarrow>
          map_of (pkg_globals st') k =
            (if k \<in> newly_loaded (mod_cache st0) (mod_cache st') then Some (Module (resolve_name k))
             else map_of (pkg_globals st0) k)"
  proof (intro allI impI)
    fix k assume "k \<notin> set listed_names"
    then have kb: "k \<notin> snd ` set builders_imports" and kr: "k \<notin> snd ` set response_imports"
      unfolding listed_names_clauses by blast+
    have "map_of (pkg_globals st') k = map_of (pkg_globals s4) k"
      by (simp add: st' fold_update_other [OF kr])
    moreover have "map_of (pkg_globals sa) k = map_of (pkg_globals s2a) k"
      by (simp add: sa fold_update_other [OF kb])
    ultimately show "map_of (pkg_globals st') k =
            (if k \<in> newly_loaded (mod_cache st0) (mod_cache st') then Some (Module (resolve_name k))
             else map_of (pkg_globals st0) k)"
      unfolding c' nl by (simp add: r2 r1)
  qed
  have k1: "fst ` set (pkg_globals s2a) =
              fst ` set (pkg_globals st0) \<union> newly_loaded (mod_cache st0) (mod_cache s2a)"
    by (rule advances_keys [OF a1])
  have ka: "fst ` set (pkg_globals sa) = snd ` set builders_imports \<union> fst ` set (pkg_globals s2a)"
    by (simp add: sa fold_update_keys)
  have k4: "fst ` set (pkg_globals s4) =
              fst ` set (pkg_globals sa) \<union> newly_loaded (mod_cache s2a) (mod_cache s4)"
    using advances_keys [OF a2] by (simp add: ca)
  have k': "fst ` set (pkg_globals st') = snd ` set response_imports \<union> fst ` set (pkg_globals s4)"
    by (simp add: st' fold_update_keys)
  show "fst ` set (pkg_globals st') =
          fst ` set (pkg_globals st0) \<union> set listed_names \<union>
          newly_loaded (mod_cache st0) (mod_cache st')"
    unfolding k' k4 ka k1 c' nl listed_names_clauses by blast
  have nb: "?qb \<noteq> ?qr" by (simp add: resolve_name_inject)
  show "\<forall>q m. q \<notin> {?qb, ?qr} \<longrightarrow> mod_cache st0 q = Some m \<longrightarrow> mod_cache st' q = Some m"
    unfolding c'
    using advances_keeps [OF a1] advances_keeps [OF a2] by (simp add: ca)
  show "\<forall>q m. q \<notin> {?qb, ?qr} \<longrightarrow> mod_cache st0 q = None \<longrightarrow> mod_cache st' q = Some m \<longrightarrow>
          outcome (w q) = Inr m"
  proof (intro allI impI)
    fix q m assume q: "q \<notin> {?qb, ?qr}" and 0: "mod_cache st0 q = None" and 2: "mod_cache st' q = Some m"
    from 2 have 4: "mod_cache s4 q = Some m" by (simp add: c')
    show "outcome (w q) = Inr m"
    proof (cases "mod_cache s2a q")
      case None
      with a2 q 4 show ?thesis by (simp add: advances_def ca)
    next
      case (Some m1)
      with a1 q 0 have "outcome (w q) = Inr m1" by (simp add: advances_def)
      moreover from advances_keeps [OF a2, of q m1] q Some have "mod_cache s4 q = Some m1"
        by (simp add: ca)
      ultimately show ?thesis using 4 by simp
    qed
  qed
  show "\<forall>a. (\<forall>q. a \<notin> fst ` set (heap_writes (w q))) \<longrightarrow> obj_heap st' a = obj_heap st0 a"
    unfolding h' using a1 a2 by (simp add: advances_def ha)
  show "mod_cache st' package = mod_cache st0 package"
    unfolding c' using a1 a2 by (simp add: advances_def ca)
  have cb4: "mod_cache s4 ?qb = Some mb"
    using advances_keeps [OF a2, of ?qb mb] cb nb by (simp add: ca)
  show "mod_cache st' ?qb \<noteq> None" "mod_cache st' ?qr \<noteq> None"
    by (simp_all add: c' cb4 cr)
  show "\<forall>(n, c) \<in> set spec_table.
          n \<notin> newly_loaded (mod_cache st0) (mod_cache st') \<longrightarrow>
          (\<exists>m. mod_cache st' (resolve_name c) = Some m \<and>
               map_of (pkg_globals st') n = import_attr (mod_cache st') (resolve_name c) m n \<and>
               map_of (pkg_globals st') n \<noteq> None)"
  proof (clarify)
    fix n c assume t: "(n, c) \<in> set spec_table"
      and nn: "n \<notin> newly_loaded (mod_cache st0) (mod_cache st')"
    from t [unfolded table_clauses]
    show "\<exists>m. mod_cache st' (resolve_name c) = Some m \<and>
               map_of (pkg_globals st') n = import_attr (mod_cache st') (resolve_name c) m n \<and>
               map_of (pkg_globals st') n \<noteq> None"
    proof
      assume b: "c = ''builders'' \<and> (n, n) \<in> set builders_imports"
      then have mem: "(n, n) \<in> set builders_imports" and c: "c = ''builders''" by simp_all
      from mem clause_names_distinct(3) have nr: "n \<notin> snd ` set response_imports"
        by force
      from nn have n24: "n \<notin> newly_loaded (mod_cache s2a) (mod_cache s4)"
        unfolding c' nl by blast
      from pb mem have ok: "import_attr (mod_cache s2a) ?qb mb n \<noteq> None" by blast
      have "map_of (pkg_globals st') n = map_of (pkg_globals s4) n"
        by (simp add: st' fold_update_other [OF nr])
      also have "\<dots> = map_of (pkg_globals sa) n"
        using n24 by (simp add: r2)
      also have "\<dots> = Some (the (import_attr (mod_cache s2a) ?qb mb n))"
        by (simp add: sa fold_update_hit [OF clause_names_distinct(1) mem])
      also have "\<dots> = import_attr (mod_cache s2a) ?qb mb n"
        using ok by simp
      also have "\<dots> = import_attr (mod_cache s4) ?qb mb n"
        by (rule import_attr_mono [OF m2 ok, symmetric])
      finally have v: "map_of (pkg_globals st') n = import_attr (mod_cache st') ?qb mb n"
        by (simp add: c')
      moreover from ok have "import_attr (mod_cache s4) ?qb mb n \<noteq> None"
        by (simp add: import_attr_mono [OF m2 ok])
      ultimately show ?thesis
        using cb4 by (simp add: c c')
    next
      assume r: "c = ''response'' \<and> (n, n) \<in> set response_imports"
      then have mem: "(n, n) \<in> set response_imports" and c: "c = ''response''" by simp_all
      from pr mem have ok: "import_attr (mod_cache s4) ?qr mr n \<noteq> None" by blast
      have "map_of (pkg_globals st') n = Some (the (import_attr (mod_cache s4) ?qr mr n))"
        by (simp add: st' fold_update_hit [OF clause_names_distinct(2) mem])
      with ok have "map_of (pkg_globals st') n = import_attr (mod_cache st') ?qr mr n"
        by (simp add: c')
      with ok cr show ?thesis
        by (simp add: c c')
    qed
  qed
qed

lemma newly_loaded_package:
  "newly_loaded a (b(package \<mapsto> x)) = newly_loaded a b"
  by (auto simp: newly_loaded_def resolve_name_not_package)


lemma import_root_success:
  assumes "import_root w ns0 mods h = (st, Inr ns)"
  shows "\<exists>st'. run_init w \<lparr>pkg_globals = ns0, mod_cache = mods, obj_heap = h\<rparr> = (st', None) \<and>
           ns = pkg_globals st' \<and>
           st = st'\<lparr>mod_cache := (mod_cache st')(package \<mapsto> pkg_globals st')\<rparr>"
  using assms by (auto simp: import_root_def split: prod.splits option.splits)








lemma newly_loaded_grows:
  "(\<forall>q. b q \<noteq> None \<longrightarrow> c q \<noteq> None) \<Longrightarrow> k \<in> newly_loaded a b \<Longrightarrow> k \<in> newly_loaded a c"
  by (auto simp: newly_loaded_def)

lemma run_code_quiet: "run_code (quiet_world ld q) st = st"
  by (simp add: run_code_def quiet_world_def)

lemma load_module_quiet:
  "load_module (quiet_world ld) package c st =
     (case mod_cache st (resolve_name c) of
        Some m \<Rightarrow> (st, Inr m)
      | None \<Rightarrow>
          (case ld (resolve_name c) of
             Inl e \<Rightarrow> (st, Inl e)
           | Inr m \<Rightarrow>
               (st\<lparr>mod_cache := (mod_cache st)(resolve_name c \<mapsto> m),
                   pkg_globals := AList.update c (Module (resolve_name c)) (pkg_globals st)\<rparr>,
                Inr m)))"
proof (cases "mod_cache st (package @ ''.'' @ c)")
  case (Some m)
  from load_module_cached [OF this] Some [unfolded package_child] show ?thesis by simp
next
  case None
  show ?thesis
  proof (cases "ld (package @ ''.'' @ c)")
    case (Inl e)
    then have "outcome (quiet_world ld (package @ ''.'' @ c)) = Inl e"
      by (simp add: quiet_world_def)
    from load_module_raises [where w = "quiet_world ld" and owner = package and child = c,
        OF None this]
    have "load_module (quiet_world ld) package c st = (st, Inl e)"
      by (simp add: run_code_quiet) (simp add: quiet_world_def)
    with None [unfolded package_child] Inl [unfolded package_child] show ?thesis by simp
  next
    case (Inr m)
    then have "outcome (quiet_world ld (package @ ''.'' @ c)) = Inr m"
      by (simp add: quiet_world_def)
    from load_module_loads [where w = "quiet_world ld" and owner = package and child = c,
        OF None this, unfolded set_attr_package package_child]
    have "load_module (quiet_world ld) package c st =
            (st\<lparr>mod_cache := (mod_cache st)(resolve_name c \<mapsto> m),
                pkg_globals := AList.update c (Module (resolve_name c)) (pkg_globals st)\<rparr>, Inr m)"
      by (simp add: run_code_quiet) (simp add: quiet_world_def)
    with None [unfolded package_child] Inr [unfolded package_child] show ?thesis by simp
  qed
qed

lemma handle_fromlist_present:
  "\<forall>n \<in> set names. map_of m n \<noteq> None \<Longrightarrow> handle_fromlist w q m names st = (st, Inr m)"
  by (induction names) auto

lemma fold_update_cong:
  "\<forall>(n, a) \<in> set cl. f n = g n \<Longrightarrow>
     fold (\<lambda>(n, a). AList.update a (f n)) cl ns = fold (\<lambda>(n, a). AList.update a (g n)) cl ns"
  by (induction cl arbitrary: ns) auto

lemma import_from_stmt_quiet:
  assumes found: "find_and_load ld (mod_cache st) (resolve_name c) = Inr m"
      and present: "\<forall>(n, a) \<in> set cl. map_of m n \<noteq> None"
  shows "import_from_stmt (quiet_world ld) c cl st =
           (st\<lparr>mod_cache := (mod_cache st)(resolve_name c \<mapsto> m),
               pkg_globals :=
                 fold (\<lambda>(n, a). AList.update a (the (map_of m n))) cl
                   ((if mod_cache st (resolve_name c) = None
                     then AList.update c (Module (resolve_name c)) else id) (pkg_globals st))\<rparr>,
            None)"
proof -
  let ?q = "resolve_name c"
  define mid where "mid = st\<lparr>mod_cache := (mod_cache st)(?q \<mapsto> m),
                  pkg_globals := (if mod_cache st ?q = None
                     then AList.update c (Module ?q) else id) (pkg_globals st)\<rparr>"
  have l: "load_module (quiet_world ld) package c st = (mid, Inr m)"
    using found unfolding mid_def
    by (auto simp: load_module_quiet find_and_load_def map_upd_triv split: option.splits sum.splits)
  from present have "\<forall>n \<in> set (map fst cl). map_of m n \<noteq> None" by auto
  from handle_fromlist_present [OF this]
  have h: "handle_fromlist (quiet_world ld) ?q m (map fst cl) mid = (mid, Inr m)" .
  have a: "\<forall>(n, a) \<in> set cl. import_attr (mod_cache mid) ?q m n = map_of m n"
    using present by (auto simp: import_attr_def split: option.splits)
  with present have p: "\<forall>(n, a) \<in> set cl. import_attr (mod_cache mid) ?q m n \<noteq> None"
    by fastforce
  from a have "\<forall>(n, a) \<in> set cl. the (import_attr (mod_cache mid) ?q m n) = the (map_of m n)"
    by fastforce
  from fold_update_cong [OF this]
  have f: "fold (\<lambda>(n, a). AList.update a (the (import_attr (mod_cache mid) ?q m n))) cl
             (pkg_globals mid) =
           fold (\<lambda>(n, a). AList.update a (the (map_of m n))) cl (pkg_globals mid)" .
  have bc: "bind_clauses ?q m cl mid =
          (mid\<lparr>pkg_globals := fold (\<lambda>(n, a). AList.update a (the (map_of m n))) cl
                                   (pkg_globals mid)\<rparr>, None)"
    unfolding bind_clauses_None_iff using p f by simp
  have "import_from_stmt (quiet_world ld) c cl st =
          (mid\<lparr>pkg_globals := fold (\<lambda>(n, a). AList.update a (the (map_of m n))) cl
                                   (pkg_globals mid)\<rparr>, None)"
    by (simp add: import_from_stmt_def l h bc)
  then show ?thesis by (simp add: mid_def)
qed

text \<open>
  The two descriptions agree where they overlap: when loading has no effect besides the
  module and each submodule provides the names imported from it, importing the package
  root gives the namespace of the first description.
\<close>

lemma quiet_world_agrees:
  assumes fb: "find_and_load ld mods (resolve_name ''builders'') = Inr mb"
      and fr: "find_and_load ld mods (resolve_name ''response'') = Inr mr"
      and pb: "\<forall>(n, a) \<in> set builders_imports. map_of mb n \<noteq> None"
      and pr: "\<forall>(n, a) \<in> set response_imports. map_of mr n \<noteq> None"
  shows "snd (import_root (quiet_world ld) ns0 mods h) = snd (import_package ld ns0 mods)"
proof -
  let ?qb = "resolve_name ''builders''" and ?qr = "resolve_name ''response''"
  define nsb where "nsb = fold (\<lambda>(n, a). AList.update a (the (map_of mb n))) builders_imports
                  ((if mods ?qb = None then AList.update ''builders'' (Module ?qb) else id) ns0)"
  define ns where "ns = fold (\<lambda>(n, a). AList.update a (the (map_of mr n))) response_imports
               ((if mods ?qr = None then AList.update ''response'' (Module ?qr) else id) nsb)"
  have "import_package ld ns0 mods =
          (mods(?qb \<mapsto> mb, ?qr \<mapsto> mr, package \<mapsto> ns), Inr ns)"
    unfolding import_package_Inr_iff ns_def nsb_def using fb fr pb pr by blast
  then have pure: "snd (import_package ld ns0 mods) = Inr ns" by simp
  define init where "init = \<lparr>pkg_globals = ns0, mod_cache = mods, obj_heap = h\<rparr>"
  define sa where "sa = \<lparr>pkg_globals = nsb, mod_cache = mods(?qb \<mapsto> mb), obj_heap = h\<rparr>"
  from fb have fb': "find_and_load ld (mod_cache init) ?qb = Inr mb" by (simp add: init_def)
  have s1: "import_from_stmt (quiet_world ld) ''builders'' builders_imports init = (sa, None)"
    unfolding import_from_stmt_quiet [OF fb' pb] by (simp add: init_def sa_def nsb_def)
  have ne: "?qr \<noteq> ?qb" by (simp add: resolve_name_def)
  have c: "mod_cache sa ?qr = mods ?qr"
    using ne by (simp add: sa_def)
  have fr': "find_and_load ld (mod_cache sa) ?qr = Inr mr"
    using fr ne by (simp add: find_and_load_def sa_def)
  have s2: "pkg_globals (fst (import_from_stmt (quiet_world ld) ''response'' response_imports sa)) = ns"
    "snd (import_from_stmt (quiet_world ld) ''response'' response_imports sa) = None"
    unfolding import_from_stmt_quiet [OF fr' pr] c by (simp_all add: ns_def sa_def)
  have "snd (import_root (quiet_world ld) ns0 mods h) = Inr ns"
    using s2 unfolding import_root_def run_init_def init_def [symmetric] s1
    by (cases "import_from_stmt (quiet_world ld) ''response'' response_imports sa") auto
  with pure show ?thesis by simp
qed

lemmas world_defs =
  import_root_def run_init_def import_from_stmt_def load_module_def enter_module_def direct_child_def
  run_code_def set_attr_def import_attr_def quiet_world_def sibling_world_def package_world_def
  package_builders_def package_root_def sibling_root_def resolve_name_def package_def
  demo_loader_def failing_response_loader_def renamed_loader_def renamed_builders_def
  demo_builders_def demo_response_def builders_imports_def response_imports_def demo_ns0_def
  demo_root_def demo_root_retry_def Let_def

lemma quiet_first_import:
  "snd (import_root (quiet_world demo_loader) demo_ns0 Map.empty (\<lambda>a. 0)) = Inr demo_root"
  by (simp add: world_defs)


lemma quiet_retry:
  "snd (import_root (quiet_world failing_response_loader) demo_ns0 Map.empty (\<lambda>a. 0)) =
     Inl (Raised 0)"
  "snd (import_root (quiet_world demo_loader) demo_ns0
          (mod_cache (fst (import_root (quiet_world failing_response_loader) demo_ns0
             Map.empty (\<lambda>a. 0)))) (\<lambda>a. 0)) = Inr demo_root_retry"
  by (simp_all add: world_defs)

lemma sibling_first_import:
  "snd (import_root sibling_world demo_ns0 Map.empty (\<lambda>a. 0)) = Inr sibling_root"
  by (simp add: world_defs)

lemma sibling_first_import_state:
  "mod_cache (fst (import_root sibling_world demo_ns0 Map.empty (\<lambda>a. 0)))
     (resolve_name ''expressions'') \<noteq> None"
  "mod_cache (fst (import_root sibling_world demo_ns0 Map.empty (\<lambda>a. 0)))
     (resolve_name ''builders'') \<noteq> None"
  "mod_cache (fst (import_root sibling_world demo_ns0 Map.empty (\<lambda>a. 0)))
     (resolve_name ''response'') \<noteq> None"
  "mod_cache (fst (import_root sibling_world demo_ns0 Map.empty (\<lambda>a. 0)))
     (resolve_name ''__name__'') = None"
  "mod_cache (fst (import_root sibling_world demo_ns0 Map.empty (\<lambda>a. 0)))
     (resolve_name ''__all__'') = None"
  "obj_heap (fst (import_root sibling_world demo_ns0 Map.empty (\<lambda>a. 0))) 1 = 7"
  "mod_cache (fst (import_root sibling_world demo_ns0 Map.empty (\<lambda>a. 0))) ''pyarrow'' =
     Some [(''Table'', Obj 30)]"
  by (simp_all add: world_defs)



lemma sibling_success:
  "import_root sibling_world demo_ns0 Map.empty (\<lambda>a. 0) =
     (fst (import_root sibling_world demo_ns0 Map.empty (\<lambda>a. 0)), Inr sibling_root)"
  by (simp add: prod_eq_iff sibling_first_import)

lemma sibling_loaded:
  "''expressions'' \<in> newly_loaded Map.empty
      (mod_cache (fst (import_root sibling_world demo_ns0 Map.empty (\<lambda>a. 0))))"
  "''builders'' \<in> newly_loaded Map.empty
      (mod_cache (fst (import_root sibling_world demo_ns0 Map.empty (\<lambda>a. 0))))"
  "''response'' \<in> newly_loaded Map.empty
      (mod_cache (fst (import_root sibling_world demo_ns0 Map.empty (\<lambda>a. 0))))"
  "''__name__'' \<notin> newly_loaded Map.empty
      (mod_cache (fst (import_root sibling_world demo_ns0 Map.empty (\<lambda>a. 0))))"
  "''__all__'' \<notin> newly_loaded Map.empty
      (mod_cache (fst (import_root sibling_world demo_ns0 Map.empty (\<lambda>a. 0))))"
  using sibling_first_import_state by (simp_all add: newly_loaded_def)

section \<open>The claims that depend on what loading does\<close>

text \<open>
  C2 (amended). After a successful import into a namespace that held only names with a
  leading underscore, the public names at the package root are the nine listed names,
  none missing, together with the names of the direct submodules of the package that
  were loaded during the import: \<^verbatim>\<open>builders\<close> and \<^verbatim>\<open>response\<close> whenever the import
  had to load them (both on a first import), and every sibling their code imported.
\<close>

theorem exposed_names_listed_and_loaded:
  assumes "import_root w ns0 mods h = (st, Inr ns)"
      and "\<forall>k \<in> fst ` set ns0. leading_underscore k"
  shows "set (public_names ns) =
           set listed_names \<union> {c \<in> newly_loaded mods (mod_cache st). \<not> leading_underscore c} \<and>
         (\<forall>c \<in> {''builders'', ''response''}.
            mods (resolve_name c) = None \<longrightarrow> c \<in> newly_loaded mods (mod_cache st))"
proof -
  from import_root_success [OF assms(1)] obtain st' where
    run: "run_init w \<lparr>pkg_globals = ns0, mod_cache = mods, obj_heap = h\<rparr> = (st', None)" and
    ns: "ns = pkg_globals st'" and
    st: "st = st'\<lparr>mod_cache := (mod_cache st')(package \<mapsto> pkg_globals st')\<rparr>"
    by blast
  have nl: "newly_loaded mods (mod_cache st) = newly_loaded mods (mod_cache st')"
    by (simp add: st newly_loaded_package)
  from all_keys [OF run]
  have keys: "fst ` set ns = fst ` set ns0 \<union> set listed_names \<union> newly_loaded mods (mod_cache st)"
    by (simp add: ns nl)
  have a: "{k \<in> fst ` set ns0. \<not> leading_underscore k} = {}"
    using assms(2) by blast
  have b: "{k \<in> set listed_names. \<not> leading_underscore k} = set listed_names"
    using listed_names_public(1) by blast
  have exact: "set (public_names ns) =
           set listed_names \<union> {c \<in> newly_loaded mods (mod_cache st). \<not> leading_underscore c}"
    using a b unfolding set_public_names keys by blast
  have loaded: "\<forall>c \<in> {''builders'', ''response''}.
            mods (resolve_name c) = None \<longrightarrow> c \<in> newly_loaded mods (mod_cache st)"
    unfolding nl using origins_cached [OF run]
    by (auto simp: newly_loaded_def)
  from exact loaded show ?thesis ..
qed

theorem exposed_names_listed_and_loaded_witness:
  "import_root sibling_world demo_ns0 Map.empty (\<lambda>a. 0) =
     (fst (import_root sibling_world demo_ns0 Map.empty (\<lambda>a. 0)), Inr sibling_root) \<and>
   list_all leading_underscore (map fst demo_ns0) \<and>
   set (public_names sibling_root) =
     set listed_names \<union>
     {c \<in> newly_loaded Map.empty
             (mod_cache (fst (import_root sibling_world demo_ns0 Map.empty (\<lambda>a. 0)))).
        \<not> leading_underscore c} \<and>
   ''expressions'' \<in> newly_loaded Map.empty
      (mod_cache (fst (import_root sibling_world demo_ns0 Map.empty (\<lambda>a. 0)))) \<and>
   ''expressions'' \<in> set (public_names sibling_root)"
proof -
  have u: "list_all leading_underscore (map fst demo_ns0)"
    by (simp add: demo_ns0_def)
  then have u': "\<forall>k \<in> fst ` set demo_ns0. leading_underscore k"
    by (simp add: list_all_iff)
  from exposed_names_listed_and_loaded [OF sibling_success u']
  have e: "set (public_names sibling_root) =
     set listed_names \<union>
     {c \<in> newly_loaded Map.empty
             (mod_cache (fst (import_root sibling_world demo_ns0 Map.empty (\<lambda>a. 0)))).
        \<not> leading_underscore c}"
    by (rule conjunct1)
  have "\<not> leading_underscore ''expressions''" by simp
  with e sibling_loaded(1) have "''expressions'' \<in> set (public_names sibling_root)" by blast
  with sibling_success u e sibling_loaded(1) show ?thesis by (intro conjI)
qed

text \<open>
  C2 as stated fails: on a first import the name \<^verbatim>\<open>builders\<close> is public at the package
  root although it is not one of the nine listed names.
\<close>

theorem exposed_names_counterexample:
  "snd (import_root (quiet_world demo_loader) demo_ns0 Map.empty (\<lambda>a. 0)) = Inr demo_root \<and>
   ''builders'' \<in> set (public_names demo_root) \<and>
   ''builders'' \<notin> set listed_names \<and>
   set (public_names demo_root) \<noteq> set listed_names"
proof -
  have a: "''builders'' \<in> set (public_names demo_root)"
    by (simp add: public_names_def demo_root_def demo_ns0_def)
  have b: "''builders'' \<notin> set listed_names"
    by (simp add: listed_names_def spec_table_def)
  from a b have "set (public_names demo_root) \<noteq> set listed_names" by blast
  with a b quiet_first_import show ?thesis by (intro conjI)
qed







text \<open>
  C9 (amended). The body binds no \<^verbatim>\<open>__all__\<close>, and every clause has the form
  \<^verbatim>\<open>X as X\<close> with a name that has no leading underscore. So after a successful import
  of a package whose namespace had no \<^verbatim>\<open>__all__\<close> and which loaded no submodule of that
  name, a wildcard import from the package root succeeds and binds, to what the package
  root holds, the nine names, the public names of the direct submodules that were loaded
  during the import (\<^verbatim>\<open>builders\<close> and \<^verbatim>\<open>response\<close> whenever the import had to load
  them, and the siblings their code imported), and the public names the namespace held
  before.
\<close>

theorem wildcard_import_binds:
  assumes "import_root w ns0 mods h = (st, Inr ns)"
      and "map_of ns0 ''__all__'' = None"
      and "''__all__'' \<notin> newly_loaded mods (mod_cache st)"
  shows "map_of ns ''__all__'' = None \<and>
         (\<forall>(n, a) \<in> set (builders_imports @ response_imports). a = n \<and> \<not> leading_underscore a) \<and>
         (\<exists>ns'. import_star package ns [] = Inr ns' \<and>
            fst ` set ns' =
              set (public_names ns0) \<union> set listed_names \<union>
              {c \<in> newly_loaded mods (mod_cache st). \<not> leading_underscore c} \<and>
            (\<forall>k \<in> fst ` set ns'. map_of ns' k = map_of ns k))"
proof -
  from import_root_success [OF assms(1)] obtain st' where
    run: "run_init w \<lparr>pkg_globals = ns0, mod_cache = mods, obj_heap = h\<rparr> = (st', None)" and
    ns: "ns = pkg_globals st'" and
    st: "st = st'\<lparr>mod_cache := (mod_cache st')(package \<mapsto> pkg_globals st')\<rparr>"
    by blast
  have nl: "newly_loaded mods (mod_cache st) = newly_loaded mods (mod_cache st')"
    by (simp add: st newly_loaded_package)
  have "''__all__'' \<notin> set listed_names"
    by (simp add: listed_names_def spec_table_def)
  with other_names [OF run] assms(2,3)
  have no_all: "map_of ns ''__all__'' = None"
    by (simp add: ns nl)
  then have names: "star_names ns = Inr (public_names ns)"
    by (simp add: star_names_def)
  have "set (public_names ns) \<subseteq> fst ` set ns"
    unfolding set_public_names by blast
  from bind_all_ok [OF this, of package "[]"] obtain ns' where
    r: "bind_all package ns (public_names ns) [] = Inr ns'" and
    k: "fst ` set ns' = set (public_names ns) \<union> fst ` set ([] :: namespace)" and
    l: "\<forall>k. map_of ns' k = (if k \<in> set (public_names ns) then map_of ns k else map_of [] k)"
    by blast
  have star: "import_star package ns [] = Inr ns'"
    by (simp add: import_star_def names r)
  from all_keys [OF run]
  have keys: "fst ` set ns = fst ` set ns0 \<union> set listed_names \<union> newly_loaded mods (mod_cache st)"
    by (simp add: ns nl)
  have b: "{k \<in> set listed_names. \<not> leading_underscore k} = set listed_names"
    using listed_names_public(1) by blast
  have pub: "set (public_names ns) =
              set (public_names ns0) \<union> set listed_names \<union>
              {c \<in> newly_loaded mods (mod_cache st). \<not> leading_underscore c}"
    using b unfolding set_public_names keys by blast
  have keys': "fst ` set ns' =
              set (public_names ns0) \<union> set listed_names \<union>
              {c \<in> newly_loaded mods (mod_cache st). \<not> leading_underscore c}"
    unfolding k pub by simp
  have vals: "\<forall>k \<in> fst ` set ns'. map_of ns' k = map_of ns k"
    using k l by simp
  from no_all clauses_plain star keys' vals show ?thesis by blast
qed

theorem wildcard_import_binds_witness:
  "import_root sibling_world demo_ns0 Map.empty (\<lambda>a. 0) =
     (fst (import_root sibling_world demo_ns0 Map.empty (\<lambda>a. 0)), Inr sibling_root) \<and>
   map_of demo_ns0 ''__all__'' = None \<and>
   ''__all__'' \<notin> newly_loaded Map.empty
      (mod_cache (fst (import_root sibling_world demo_ns0 Map.empty (\<lambda>a. 0)))) \<and>
   map_of sibling_root ''__all__'' = None \<and>
   (\<exists>ns'. import_star package sibling_root [] = Inr ns' \<and>
      fst ` set ns' =
        set (public_names demo_ns0) \<union> set listed_names \<union>
        {c \<in> newly_loaded Map.empty
                (mod_cache (fst (import_root sibling_world demo_ns0 Map.empty (\<lambda>a. 0)))).
           \<not> leading_underscore c} \<and>
      map_of ns' ''expressions'' = Some (Module (resolve_name ''expressions'')))"
proof -
  have a: "map_of demo_ns0 ''__all__'' = None"
    by (simp add: demo_ns0_def)
  note t = wildcard_import_binds [OF sibling_success a sibling_loaded(5)]
  from t have n: "map_of sibling_root ''__all__'' = None"
    by (rule conjunct1)
  from t have "\<exists>ns'. import_star package sibling_root [] = Inr ns' \<and>
      fst ` set ns' =
        set (public_names demo_ns0) \<union> set listed_names \<union>
        {c \<in> newly_loaded Map.empty
                (mod_cache (fst (import_root sibling_world demo_ns0 Map.empty (\<lambda>a. 0)))).
           \<not> leading_underscore c} \<and>
      (\<forall>k \<in> fst ` set ns'. map_of ns' k = map_of sibling_root k)"
    by (rule conjunct2 [THEN conjunct2])
  then obtain ns' where
    s: "import_star package sibling_root [] = Inr ns'" and
    k: "fst ` set ns' =
        set (public_names demo_ns0) \<union> set listed_names \<union>
        {c \<in> newly_loaded Map.empty
                (mod_cache (fst (import_root sibling_world demo_ns0 Map.empty (\<lambda>a. 0)))).
           \<not> leading_underscore c}" and
    v: "\<forall>k \<in> fst ` set ns'. map_of ns' k = map_of sibling_root k"
    by (elim exE conjE)
  have "\<not> leading_underscore ''expressions''" by simp
  with k sibling_loaded(1) have "''expressions'' \<in> fst ` set ns'" by blast
  with v have "map_of ns' ''expressions'' = map_of sibling_root ''expressions''" by blast
  also have "\<dots> = Some (Module (resolve_name ''expressions''))"
    by (simp add: sibling_root_def demo_ns0_def resolve_name_def package_def)
  finally have e: "map_of ns' ''expressions'' = Some (Module (resolve_name ''expressions''))" .
  from s k e have "\<exists>ns'. import_star package sibling_root [] = Inr ns' \<and>
      fst ` set ns' =
        set (public_names demo_ns0) \<union> set listed_names \<union>
        {c \<in> newly_loaded Map.empty
                (mod_cache (fst (import_root sibling_world demo_ns0 Map.empty (\<lambda>a. 0)))).
           \<not> leading_underscore c} \<and>
      map_of ns' ''expressions'' = Some (Module (resolve_name ''expressions''))"
    by (intro exI [of _ ns'] conjI)
  with sibling_success a sibling_loaded(5) n show ?thesis by (intro conjI)
qed

text \<open>
  C9 as stated fails. When the import is repeated after a first attempt in which loading
  \<^verbatim>\<open>response\<close> raised, \<^verbatim>\<open>builders\<close> comes from the module cache and is not bound
  at the package root, so a wildcard import does not export it.
\<close>

theorem wildcard_import_counterexample:
  "snd (import_root (quiet_world failing_response_loader) demo_ns0 Map.empty (\<lambda>a. 0)) =
     Inl (Raised 0) \<and>
   snd (import_root (quiet_world demo_loader) demo_ns0
          (mod_cache (fst (import_root (quiet_world failing_response_loader) demo_ns0
             Map.empty (\<lambda>a. 0)))) (\<lambda>a. 0)) = Inr demo_root_retry \<and>
   import_star package demo_root_retry [] = Inr demo_star_retry \<and>
   map_of demo_star_retry ''builders'' = None"
proof -
  have s: "import_star package demo_root_retry [] = Inr demo_star_retry"
    by (simp add: import_star_def star_names_def public_names_def demo_root_retry_def
        demo_ns0_def demo_star_retry_def)
  have "map_of demo_star_retry ''builders'' = None"
    by (simp add: demo_star_retry_def)
  with quiet_retry s show ?thesis by (intro conjI)
qed

end
